theory Spec2Isabelle
  imports Main "HOL-Library.Word"
begin

unbundle bit_operations_syntax

section \<open>Data model\<close>

text \<open>
  The package \<^verbatim>\<open>httpx\<close> (file \<^verbatim>\<open>httpx.go\<close>) is a retrying executor around
  \<^verbatim>\<open>http.Client.Do\<close>; the package \<^verbatim>\<open>logger\<close> is a logging
  \<^verbatim>\<open>http.RoundTripper\<close> around another round tripper. Both are embedded as state
  transformers on a world that holds the streams (\<^verbatim>\<open>io.ReadCloser\<close> values, by
  reference), the clock, the log sink and the trace of transport invocations.

  A byte slice is a list of characters (a \<open>char\<close> is one byte). A \<^verbatim>\<open>time.Duration\<close>
  is a signed 64-bit count of nanoseconds: a 64-bit word read through \<open>sint\<close>, whose
  arithmetic wraps as Go's does. A Go \<^verbatim>\<open>int\<close> (the attempt counter and the
  \<^verbatim>\<open>Retries\<close> setting) is an \<open>int\<close>; the counter only takes values between 1 and
  \<^verbatim>\<open>Retries + 1\<close>.
\<close>

type_synonym bytes = string
type_synonym duration = "64 word"

text \<open>
  Errors. \<open>Err\<close> is an error produced outside the package (a failing reader, the
  transport); the other three are the values built by \<^verbatim>\<open>fmt.Errorf\<close> in
  \<^verbatim>\<open>client.Do\<close>, with the wrapped cause and the formatted attempt count.
\<close>

datatype error =
    Err string
  | ErrBodyRead error
  | ErrAfterAttempts int error
  | ErrUnknown int

text \<open>
  One \<^verbatim>\<open>io.ReadCloser\<close>: the bytes it still yields, the error its \<^verbatim>\<open>Read\<close>
  reports once they are exhausted (\<open>None\<close> for \<^verbatim>\<open>io.EOF\<close>), how many times it has
  been drained by \<^verbatim>\<open>io.ReadAll\<close>, and whether \<^verbatim>\<open>Close\<close> was called.
\<close>

record read_closer =
  sdata :: bytes
  serr :: "error option"
  sreads :: nat
  sclosed :: bool

text \<open>
  A \<^verbatim>\<open>context.Context\<close>, reduced to the instant at which its \<^verbatim>\<open>Done\<close> channel is
  closed (\<open>None\<close>: never). Times are nanoseconds on the world's clock.
\<close>

record ctx =
  done_at :: "int option"

definition ctx_done :: "ctx \<Rightarrow> int \<Rightarrow> bool" where
  "ctx_done cx t = (case done_at cx of None \<Rightarrow> False | Some d \<Rightarrow> d \<le> t)"

record request =
  Method :: string
  URL :: string
  Body :: "nat option"
  rctx :: ctx

record response =
  StatusCode :: int
  RespBody :: "nat option"

datatype level = LevelDebug | LevelInfo | LevelWarn | LevelError

datatype attr = AInt int | AString string | ADuration int | AErr error

record log_event =
  lvl :: level
  msg :: string
  attrs :: "(string \<times> attr) list"

text \<open>
  What a transport capability observes when it is invoked: the request line, the body
  stream it was handed (its reference and the state of the stream at that moment), the
  time, and whether the request's context was already done.
\<close>

record call =
  call_method :: string
  call_url :: string
  call_body :: "(nat \<times> read_closer) option"
  call_time :: int
  call_done :: bool

text \<open>
  The answer of a transport capability: an error, or a status code with a body.
  The capability is a black box with a state of its own; it also says how long the
  exchange took.
\<close>

datatype 'b reply = Fail error | Reply int 'b

type_synonym ('t, 'b) transport = "'t \<Rightarrow> call \<Rightarrow> 'b reply \<times> nat \<times> 't"

text \<open>
  The world: the streams by reference (\<open>nxt\<close> is the next unused reference), the
  clock, the log sink, the invocations of the transport capability in order with what
  each one returned, the backoff waits in order, and the capability's own state.
\<close>

record 't world =
  heap :: "nat \<Rightarrow> read_closer"
  nxt :: nat
  now :: int
  logs :: "log_event list"
  calls :: "call list"
  results :: "(error + response) list"
  waited :: "(int \<times> duration \<times> bool) list"
  tstate :: 't

section \<open>Streams and the log sink\<close>

text \<open>\<^verbatim>\<open>io.NopCloser(bytes.NewReader(b))\<close>: an unread stream over \<open>b\<close>.\<close>

definition NewReader :: "bytes \<Rightarrow> read_closer" where
  "NewReader b = \<lparr>sdata = b, serr = None, sreads = 0, sclosed = False\<rparr>"

definition alloc :: "read_closer \<Rightarrow> 't world \<Rightarrow> nat \<times> 't world" where
  "alloc s w = (nxt w, w\<lparr>heap := (heap w)(nxt w := s), nxt := Suc (nxt w)\<rparr>)"

text \<open>
  \<^verbatim>\<open>io.ReadAll\<close>: returns what the stream still yields together with its error, and
  leaves the stream exhausted.
\<close>

definition ReadAll :: "nat \<Rightarrow> 't world \<Rightarrow> (bytes \<times> error option) \<times> 't world" where
  "ReadAll r w =
     (let s = heap w r
      in ((sdata s, serr s),
          w\<lparr>heap := (heap w)(r := s\<lparr>sdata := [], sreads := Suc (sreads s)\<rparr>)\<rparr>))"

definition CloseBody :: "nat \<Rightarrow> 't world \<Rightarrow> 't world" where
  "CloseBody r w = w\<lparr>heap := (heap w)(r := (heap w r)\<lparr>sclosed := True\<rparr>)\<rparr>"

definition emit :: "level \<Rightarrow> string \<Rightarrow> (string \<times> attr) list \<Rightarrow> 't world \<Rightarrow> 't world" where
  "emit l m as w = w\<lparr>logs := logs w @ [\<lparr>lvl = l, msg = m, attrs = as\<rparr>]\<rparr>"

section \<open>Invoking a transport capability\<close>

text \<open>
  One invocation of a transport capability \<open>tr\<close> with a request. The capability is
  shown the request and the stream attached to it, which it drains and closes (the
  contract of \<^verbatim>\<open>http.RoundTripper\<close>); the invocation and its result are appended to
  the traces, the clock advances by the time the exchange took, and the body of a
  response is allocated as a new stream. \<open>body_of\<close> says whether a reply has a body.
\<close>

definition observe :: "request \<Rightarrow> 't world \<Rightarrow> call" where
  "observe req w =
     \<lparr>call_method = Method req, call_url = URL req,
      call_body = (case Body req of None \<Rightarrow> None | Some r \<Rightarrow> Some (r, heap w r)),
      call_time = now w, call_done = ctx_done (rctx req) (now w)\<rparr>"

definition invoke ::
  "('t, 'b) transport \<Rightarrow> ('b \<Rightarrow> read_closer option) \<Rightarrow> request \<Rightarrow> 't world \<Rightarrow>
     (error + response) \<times> 't world" where
  "invoke tr body_of req w =
     (let cl = observe req w;
          (rep, dur, ts) = tr (tstate w) cl;
          w1 = (case Body req of None \<Rightarrow> w | Some r \<Rightarrow> CloseBody r (snd (ReadAll r w)));
          w2 = w1\<lparr>calls := calls w1 @ [cl], now := now w1 + int dur, tstate := ts\<rparr>;
          (res, w3) =
            (case rep of
               Fail e \<Rightarrow> (Inl e, w2)
             | Reply sc b \<Rightarrow>
                 (case body_of b of
                    None \<Rightarrow> (Inr \<lparr>StatusCode = sc, RespBody = None\<rparr>, w2)
                  | Some s \<Rightarrow>
                      (let (r, w') = alloc s w2
                       in (Inr \<lparr>StatusCode = sc, RespBody = Some r\<rparr>, w'))))
      in (res, w3\<lparr>results := results w3 @ [res]\<rparr>))"

section \<open>The retrying executor (httpx.go)\<close>

record client =
  Timeout :: duration
  Retries :: int
  RetryDelay :: duration
  MaxRetryWait :: duration

definition defaultRetries :: int where
  "defaultRetries = 1"

definition defaultHTTPTimeout :: duration where
  "defaultHTTPTimeout = 10 * 1000000000"

definition defaultRetryDelay :: duration where
  "defaultRetryDelay = 100 * 1000000"

definition defaultMaxRetryWait :: duration where
  "defaultMaxRetryWait = 5 * 1000000000"

definition WithRetries :: "int \<Rightarrow> client \<Rightarrow> client" where
  "WithRetries n c = c\<lparr>Retries := n\<rparr>"

definition WithTimeout :: "duration \<Rightarrow> client \<Rightarrow> client" where
  "WithTimeout d c = c\<lparr>Timeout := d\<rparr>"

definition WithRetryDelay :: "duration \<Rightarrow> client \<Rightarrow> client" where
  "WithRetryDelay d c = c\<lparr>RetryDelay := d\<rparr>"

definition WithMaxRetryWait :: "duration \<Rightarrow> client \<Rightarrow> client" where
  "WithMaxRetryWait d c = c\<lparr>MaxRetryWait := d\<rparr>"

definition New :: "(client \<Rightarrow> client) list \<Rightarrow> client" where
  "New opts =
     fold (\<lambda>opt c. opt c) opts
       \<lparr>Timeout = defaultHTTPTimeout, Retries = defaultRetries,
        RetryDelay = defaultRetryDelay, MaxRetryWait = defaultMaxRetryWait\<rparr>"

definition shouldRetry :: "int \<Rightarrow> bool" where
  "shouldRetry statusCode \<longleftrightarrow>
     statusCode = 429 \<or> statusCode = 408 \<or> (statusCode \<ge> 500 \<and> statusCode < 600)"

text \<open>
  Lines 165 to 170 of \<^verbatim>\<open>waitBeforeRetry\<close>: the delay it computes.
  \<^verbatim>\<open>1<<uint(attempt-1)\<close> is a shift of the \<^verbatim>\<open>time.Duration\<close> 1 (64 bits; a
  count of 64 or more gives 0), the product wraps at 64 bits, and the comparison with
  \<^verbatim>\<open>MaxRetryWait\<close> is signed.
\<close>

definition retryDelay :: "client \<Rightarrow> int \<Rightarrow> duration" where
  "retryDelay c attempt =
     (let delay = RetryDelay c * push_bit (nat ((attempt - 1) mod 2 ^ 64)) 1
      in if sint delay > sint (MaxRetryWait c) then MaxRetryWait c else delay)"

text \<open>
  The \<^verbatim>\<open>select\<close> of \<^verbatim>\<open>waitBeforeRetry\<close>: the timer of \<^verbatim>\<open>time.After(delay)\<close>
  fires after \<open>delay\<close> (at once when it is not positive), the context at \<open>done_at\<close>.
  Whichever comes first ends the wait; the function returns nothing in either case.
  The trace \<open>waited\<close> keeps the attempt, the delay and whether the context ended the wait
  (when both are ready together Go picks either branch, with the same effect; the trace
  then says the timer).
\<close>

definition waitBeforeRetry :: "client \<Rightarrow> ctx \<Rightarrow> int \<Rightarrow> 't world \<Rightarrow> 't world" where
  "waitBeforeRetry c cx attempt w =
     (let delay = retryDelay c attempt;
          w1 = emit LevelDebug ''waiting before retry''
                 [(''delay'', ADuration (sint delay)), (''attempt'', AInt attempt)] w;
          fire = now w1 + max 0 (sint delay)
      in case done_at cx of
           None \<Rightarrow> w1\<lparr>now := fire, waited := waited w1 @ [(attempt, delay, False)]\<rparr>
         | Some t \<Rightarrow>
             if t < fire
             then w1\<lparr>now := max (now w1) t, waited := waited w1 @ [(attempt, delay, True)]\<rparr>
             else w1\<lparr>now := fire, waited := waited w1 @ [(attempt, delay, False)]\<rparr>)"

text \<open>
  \<^verbatim>\<open>c.HttpClient.Do(req)\<close>, the transport capability of the executor: a response of
  \<^verbatim>\<open>http.Client.Do\<close> always has a body.
\<close>

definition HttpClient_Do ::
  "('t, read_closer) transport \<Rightarrow> request \<Rightarrow> 't world \<Rightarrow> (error + response) \<times> 't world" where
  "HttpClient_Do tr req w = invoke tr Some req w"

text \<open>
  Lines 98 to 100: a buffered body is attached to the request as a new stream.
\<close>

definition restoreBody :: "bytes option \<Rightarrow> request \<Rightarrow> 't world \<Rightarrow> request \<times> 't world" where
  "restoreBody bodyBytes req w =
     (case bodyBytes of
        None \<Rightarrow> (req, w)
      | Some b \<Rightarrow> (let (r, w') = alloc (NewReader b) w in (req\<lparr>Body := Some r\<rparr>, w')))"

text \<open>
  The loop of \<^verbatim>\<open>client.Do\<close> (lines 96 to 148), from a given attempt on, with the
  statements after the loop as its exit. The result is Go's pair of a response and an
  error, each of which may be nil. (The body of a response of \<^verbatim>\<open>http.Client.Do\<close> is
  never nil, so the \<open>None\<close> case of closing it does not arise.)
\<close>

function Do_loop ::
  "client \<Rightarrow> ('t, read_closer) transport \<Rightarrow> ctx \<Rightarrow> request \<Rightarrow> bytes option \<Rightarrow> int \<Rightarrow>
     error option \<Rightarrow> 't world \<Rightarrow> (response option \<times> error option) \<times> 't world" where
  "Do_loop c tr cx req bodyBytes attempt lastErr w =
     (if attempt \<le> Retries c then
        (let (req1, w1) = restoreBody bodyBytes req w;
             (res, w2) = HttpClient_Do tr req1 w1
         in case res of
              Inl err \<Rightarrow>
                (let w3 = emit LevelWarn ''request attempt failed''
                            [(''attempt'', AInt attempt), (''max_retries'', AInt (Retries c)),
                             (''method'', AString (Method req1)), (''url'', AString (URL req1)),
                             (''error'', AErr err)] w2
                 in if attempt \<ge> Retries c
                    then ((None, Some (ErrAfterAttempts (Retries c) err)), w3)
                    else Do_loop c tr cx req1 bodyBytes (attempt + 1) (Some err)
                           (waitBeforeRetry c cx attempt w3))
            | Inr resp \<Rightarrow>
                if shouldRetry (StatusCode resp) \<and> attempt < Retries c
                then
                  (let w3 = (case RespBody resp of None \<Rightarrow> w2 | Some r \<Rightarrow> CloseBody r w2);
                       w4 = emit LevelWarn ''retrying due to status code''
                              [(''status'', AInt (StatusCode resp)), (''attempt'', AInt attempt),
                               (''max_retries'', AInt (Retries c)),
                               (''url'', AString (URL req1))] w3
                   in Do_loop c tr cx req1 bodyBytes (attempt + 1) lastErr
                        (waitBeforeRetry c cx attempt w4))
                else ((Some resp, None), w2))
      else
        (case lastErr of
           Some e \<Rightarrow> ((None, Some (ErrAfterAttempts (Retries c) e)), w)
         | None \<Rightarrow> ((None, Some (ErrUnknown (Retries c))), w)))"
  by pat_completeness auto
termination
  by (relation "measure (\<lambda>(c, tr, cx, req, bodyBytes, attempt, lastErr, w).
        nat (Retries c + 1 - attempt))") auto

declare Do_loop.simps [simp del]

text \<open>
  \<^verbatim>\<open>client.Do\<close>: the body, when there is one, is read and closed before the loop; a nil
  context is replaced by the request's own.
\<close>

definition Do ::
  "client \<Rightarrow> ('t, read_closer) transport \<Rightarrow> ctx option \<Rightarrow> request \<Rightarrow> 't world \<Rightarrow>
     (response option \<times> error option) \<times> 't world" where
  "Do c tr cxo req w =
     (let cx = (case cxo of None \<Rightarrow> rctx req | Some x \<Rightarrow> x)
      in case Body req of
           None \<Rightarrow> Do_loop c tr cx (req\<lparr>rctx := cx\<rparr>) None 1 None w
         | Some r \<Rightarrow>
             (let ((data, rerr), w1) = ReadAll r w
              in case rerr of
                   Some e \<Rightarrow> ((None, Some (ErrBodyRead e)), w1)
                 | None \<Rightarrow>
                     Do_loop c tr cx (req\<lparr>rctx := cx\<rparr>) (Some data) 1 None (CloseBody r w1)))"

section \<open>The logging round tripper (package logger)\<close>

record LoggingRoundTripper =
  logBodies :: bool
  maxBodySize :: int

definition defaultMaxBodySize :: int where
  "defaultMaxBodySize = 5 * 1024 * 1024"

definition WithBodyLogging :: "bool \<Rightarrow> LoggingRoundTripper \<Rightarrow> LoggingRoundTripper" where
  "WithBodyLogging enabled l = l\<lparr>logBodies := enabled\<rparr>"

definition WithMaxBodySize :: "int \<Rightarrow> LoggingRoundTripper \<Rightarrow> LoggingRoundTripper" where
  "WithMaxBodySize n l = l\<lparr>maxBodySize := n\<rparr>"

definition NewLoggingRoundTripper ::
  "(LoggingRoundTripper \<Rightarrow> LoggingRoundTripper) list \<Rightarrow> LoggingRoundTripper" where
  "NewLoggingRoundTripper opts =
     fold (\<lambda>opt l. opt l) opts \<lparr>logBodies = False, maxBodySize = defaultMaxBodySize\<rparr>"

text \<open>
  \<^verbatim>\<open>readBody\<close> returns the bytes for the log (nil when the read failed), a new reader
  and the error of the read. The slice expression \<^verbatim>\<open>data[:limit]\<close> panics when
  \<open>limit\<close> is negative (it is only evaluated when \<^verbatim>\<open>len(data) > limit\<close>, so it never
  exceeds the capacity): the result \<open>None\<close> is that panic, which unwinds through the
  callers.
\<close>

definition readBody ::
  "nat \<Rightarrow> int \<Rightarrow> 't world \<Rightarrow> ((bytes option \<times> nat \<times> error option) \<times> 't world) option" where
  "readBody body limit w =
     (let ((data, err), w1) = ReadAll body w;
          w2 = CloseBody body w1
      in case err of
           Some e \<Rightarrow> (let (r, w3) = alloc (NewReader []) w2 in Some ((None, r, Some e), w3))
         | None \<Rightarrow>
             if int (length data) > limit
             then (if limit < 0 then None
                   else (let logBytes = take (nat limit) data;
                             (r, w3) = alloc (NewReader data) w2
                         in Some ((Some logBytes, r, None), w3)))
             else (let (r, w3) = alloc (NewReader data) w2 in Some ((Some data, r, None), w3)))"

text \<open>\<^verbatim>\<open>string(bodyData)\<close>; a nil slice gives the empty string.\<close>

definition string_of :: "bytes option \<Rightarrow> string" where
  "string_of b = (case b of None \<Rightarrow> [] | Some x \<Rightarrow> x)"

definition logRequest ::
  "LoggingRoundTripper \<Rightarrow> request \<Rightarrow> 't world \<Rightarrow> (request \<times> 't world) option" where
  "logRequest l req w =
     (case Body req of
        None \<Rightarrow> Some (req, w)
      | Some body \<Rightarrow>
          if \<not> logBodies l then Some (req, w)
          else
            (case readBody body (maxBodySize l) w of
               None \<Rightarrow> None
             | Some ((bodyData, newReader, err), w1) \<Rightarrow>
                 (let req1 = req\<lparr>Body := Some newReader\<rparr>
                  in case err of
                       Some e \<Rightarrow>
                         Some (req1, emit LevelWarn ''failed to read request body''
                                       [(''error'', AErr e)] w1)
                     | None \<Rightarrow>
                         Some (req1, emit LevelDebug ''http request body''
                                       [(''body'', AString (string_of bodyData))] w1))))"

definition logRequestError ::
  "LoggingRoundTripper \<Rightarrow> request \<Rightarrow> int \<Rightarrow> error \<Rightarrow> 't world \<Rightarrow> 't world" where
  "logRequestError l req duration err w =
     emit LevelError ''http request failed''
       [(''method'', AString (Method req)), (''url'', AString (URL req)),
        (''duration'', ADuration duration), (''error'', AErr err)] w"

definition logResponse ::
  "LoggingRoundTripper \<Rightarrow> request \<Rightarrow> response \<Rightarrow> int \<Rightarrow> 't world \<Rightarrow>
     (response \<times> 't world) option" where
  "logResponse l req resp duration w =
     (case (case RespBody resp of
              None \<Rightarrow> Some (resp, w)
            | Some body \<Rightarrow>
                if \<not> logBodies l then Some (resp, w)
                else
                  (case readBody body (maxBodySize l) w of
                     None \<Rightarrow> None
                   | Some ((bodyData, newReader, err), w1) \<Rightarrow>
                       (let resp1 = resp\<lparr>RespBody := Some newReader\<rparr>
                        in case err of
                             Some e \<Rightarrow>
                               Some (resp1, emit LevelWarn ''failed to read response body''
                                              [(''error'', AErr e)] w1)
                           | None \<Rightarrow>
                               Some (resp1, emit LevelDebug ''http response body''
                                              [(''body'', AString (string_of bodyData))] w1)))) of
        None \<Rightarrow> None
      | Some (resp1, w2) \<Rightarrow>
          Some (resp1, emit LevelInfo ''http request completed''
                         [(''method'', AString (Method req)), (''url'', AString (URL req)),
                          (''status'', AInt (StatusCode resp1)),
                          (''duration'', ADuration duration)] w2))"

text \<open>
  \<^verbatim>\<open>l.next.RoundTrip(req)\<close>: the wrapped round tripper, whose response may have a nil
  body.
\<close>

definition next_RoundTrip ::
  "('t, read_closer option) transport \<Rightarrow> request \<Rightarrow> 't world \<Rightarrow>
     (error + response) \<times> 't world" where
  "next_RoundTrip tr req w = invoke tr (\<lambda>b. b) req w"

definition RoundTrip ::
  "LoggingRoundTripper \<Rightarrow> ('t, read_closer option) transport \<Rightarrow> request \<Rightarrow> 't world \<Rightarrow>
     ((response option \<times> error option) \<times> 't world) option" where
  "RoundTrip l tr req w =
     (let start = now w
      in case logRequest l req w of
           None \<Rightarrow> None
         | Some (req1, w1) \<Rightarrow>
             (let (res, w2) = next_RoundTrip tr req1 w1;
                  duration = now w2 - start
              in case res of
                   Inl err \<Rightarrow> Some ((None, Some err), logRequestError l req1 duration err w2)
                 | Inr resp \<Rightarrow>
                     (case logResponse l req1 resp duration w2 of
                        None \<Rightarrow> None
                      | Some (resp1, w3) \<Rightarrow> Some ((Some resp1, None), w3))))"

section \<open>Transports and worlds for concrete runs\<close>

text \<open>
  A transport that gives the same answer to every invocation, taking \<open>d\<close> nanoseconds;
  one that does so until the request's context is done and fails at once from then on,
  as \<^verbatim>\<open>http.DefaultTransport\<close> does; and one that plays a list of answers in order, as
  the \<^verbatim>\<open>mockRoundTripper\<close> of the tests does (then status 200 with a default body).
  Each counts its invocations.
\<close>

definition always :: "'b reply \<Rightarrow> nat \<Rightarrow> (nat, 'b) transport" where
  "always rep d n cl = (rep, d, Suc n)"

definition ctx_aware :: "'b reply \<Rightarrow> nat \<Rightarrow> (nat, 'b) transport" where
  "ctx_aware rep d n cl =
     (if call_done cl then (Fail (Err ''context deadline exceeded''), 0, Suc n)
      else (rep, d, Suc n))"

definition scripted :: "'b reply list \<Rightarrow> 'b \<Rightarrow> (nat, 'b) transport" where
  "scripted rs dflt n cl = (if n < length rs then rs ! n else Reply 200 dflt, 0, Suc n)"

definition world0 :: "'t \<Rightarrow> 't world" where
  "world0 ts = \<lparr>heap = (\<lambda>_. NewReader []), nxt = 0, now = 0, logs = [], calls = [],
                results = [], waited = [], tstate = ts\<rparr>"

text \<open>
  Inputs of the concrete runs below: a client with three attempts and the default
  delays, one with forty, a GET request without a body, a context that is done 50 ms
  after the start, and a server that answers 500 until the context is done.
\<close>

definition client3 :: client where
  "client3 = New [WithRetries 3]"

definition client40 :: client where
  "client40 = New [WithRetries 40]"

definition get_request :: request where
  "get_request = \<lparr>Method = ''GET'', URL = ''http://example.com/api'', Body = None,
                  rctx = \<lparr>done_at = None\<rparr>\<rparr>"

definition ctx50 :: ctx where
  "ctx50 = \<lparr>done_at = Some 50000000\<rparr>"

definition server500 :: "(nat, read_closer) transport" where
  "server500 = ctx_aware (Reply 500 (NewReader [])) 0"

definition cancel_request :: request where
  "cancel_request = get_request\<lparr>rctx := ctx50\<rparr>"

text \<open>
  A server that always answers with the given status, a transport whose first exchange
  fails and whose later ones succeed, a POST request whose body is the
  stream at reference 0, a world in which that stream fails when read (the
  \<^verbatim>\<open>errorReader\<close> of the tests), and one in which it holds \<open>payload\<close>.
\<close>

definition server :: "int \<Rightarrow> (nat, read_closer) transport" where
  "server sc = always (Reply sc (NewReader [])) 0"

definition flaky :: "(nat, read_closer) transport" where
  "flaky = scripted [Fail (Err ''connection refused'')] (NewReader [])"

definition background :: ctx where
  "background = \<lparr>done_at = None\<rparr>"

definition post_request :: request where
  "post_request = \<lparr>Method = ''POST'', URL = ''http://example.com/api'', Body = Some 0,
                   rctx = \<lparr>done_at = None\<rparr>\<rparr>"

definition errorReader_world :: "nat world" where
  "errorReader_world =
     \<lparr>heap = (\<lambda>_. NewReader [])(0 := \<lparr>sdata = [], serr = Some (Err ''read error''),
                                          sreads = 0, sclosed = False\<rparr>),
      nxt = 1, now = 0, logs = [], calls = [], results = [], waited = [], tstate = 0\<rparr>"

definition payload_world :: "nat world" where
  "payload_world =
     \<lparr>heap = (\<lambda>_. NewReader [])(0 := NewReader ''payload''),
      nxt = 1, now = 0, logs = [], calls = [], results = [], waited = [], tstate = 0\<rparr>"

text \<open>
  For the logging round tripper: body logging enabled with a limit of 100 bytes, a world
  whose stream 0 holds 1000 bytes (the \<^verbatim>\<open>largeBody\<close> of the tests), a response whose
  body is that stream, and a wrapped round tripper that answers 200 without a body.
\<close>

definition body_logger :: LoggingRoundTripper where
  "body_logger = NewLoggingRoundTripper [WithBodyLogging True, WithMaxBodySize 100]"

definition largeBody_world :: "nat world" where
  "largeBody_world =
     \<lparr>heap = (\<lambda>_. NewReader [])(0 := NewReader (replicate 1000 CHR ''a'')),
      nxt = 1, now = 0, logs = [], calls = [], results = [], waited = [], tstate = 0\<rparr>"

definition ok_response :: response where
  "ok_response = \<lparr>StatusCode = 200, RespBody = Some 0\<rparr>"

definition plain_next :: "(nat, read_closer option) transport" where
  "plain_next = always (Reply 200 None) 0"

text \<open>
  The same round tripper with the limit set to \<open>-1\<close> (\<^verbatim>\<open>WithMaxBodySize\<close> takes any
  \<^verbatim>\<open>int64\<close> and nothing validates it), and a wrapped round tripper whose responses
  carry the body \<open>abc\<close>.
\<close>

definition negative_logger :: LoggingRoundTripper where
  "negative_logger = NewLoggingRoundTripper [WithBodyLogging True, WithMaxBodySize (- 1)]"

definition body_next :: "(nat, read_closer option) transport" where
  "body_next = always (Reply 200 (Some (NewReader ''abc''))) 0"

text \<open>
  For the proofs about the request body: from world \<open>w\<close> to world \<open>w'\<close> the
  transport capability has only been invoked with unread streams over \<open>b\<close>, each at a
  reference that was unused in \<open>w\<close> and at no two the same, and the streams that existed
  in \<open>w\<close> are untouched.
\<close>

definition fresh_calls :: "bytes \<Rightarrow> 't world \<Rightarrow> 't world \<Rightarrow> bool" where
  "fresh_calls b w w' \<longleftrightarrow>
     (\<exists>cs. calls w' = calls w @ cs \<and>
        (\<forall>cl\<in>set cs. \<exists>r. call_body cl = Some (r, NewReader b) \<and> nxt w \<le> r) \<and>
        distinct (map call_body cs)) \<and>
     (\<forall>r<nxt w. heap w' r = heap w r) \<and> nxt w \<le> nxt w'"

text \<open>
  From world \<open>w\<close> to world \<open>w'\<close> the loop, entered at \<open>attempt\<close>, has made some
  attempts \<open>attempt, attempt + 1, \<dots>\<close>, at least one and no more than remain: each one
  invoked the transport capability once and got one result, and each but the last was
  followed by one backoff wait, recorded under its attempt number.
\<close>

definition attempts_made :: "client \<Rightarrow> int \<Rightarrow> 't world \<Rightarrow> 't world \<Rightarrow> bool" where
  "attempts_made c attempt w w' \<longleftrightarrow>
     (\<exists>ws. waited w' = waited w @ ws \<and>
        map fst ws = [attempt .. attempt + int (length ws) - 1] \<and>
        length (calls w') = length (calls w) + Suc (length ws) \<and>
        length (results w') = length (results w) + Suc (length ws) \<and>
        int (Suc (length ws)) \<le> Retries c - attempt + 1)"

section \<open>One iteration of the loop\<close>

lemma Do_loop_exit:
  "\<not> attempt \<le> Retries c \<Longrightarrow>
   Do_loop c tr cx req bb attempt le w =
     ((None, Some (case le of Some e \<Rightarrow> ErrAfterAttempts (Retries c) e
                            | None \<Rightarrow> ErrUnknown (Retries c))), w)"
  by (subst Do_loop.simps) (simp split: option.splits)

lemma Do_loop_Inr_final:
  assumes "attempt \<le> Retries c"
    and "restoreBody bb req w = (req1, w1)"
    and "HttpClient_Do tr req1 w1 = (Inr resp, w2)"
    and "\<not> (shouldRetry (StatusCode resp) \<and> attempt < Retries c)"
  shows "Do_loop c tr cx req bb attempt le w = ((Some resp, None), w2)"
  using assms by (subst Do_loop.simps) auto

lemma Do_loop_Inr_retry:
  assumes "attempt < Retries c"
    and "restoreBody bb req w = (req1, w1)"
    and "HttpClient_Do tr req1 w1 = (Inr resp, w2)"
    and "shouldRetry (StatusCode resp)"
  shows "Do_loop c tr cx req bb attempt le w =
         Do_loop c tr cx req1 bb (attempt + 1) le
           (waitBeforeRetry c cx attempt
              (emit LevelWarn ''retrying due to status code''
                 [(''status'', AInt (StatusCode resp)), (''attempt'', AInt attempt),
                  (''max_retries'', AInt (Retries c)), (''url'', AString (URL req1))]
                 (case RespBody resp of None \<Rightarrow> w2 | Some r \<Rightarrow> CloseBody r w2)))"
  using assms by (subst Do_loop.simps) (simp add: Let_def)

lemma Do_loop_Inl_final:
  assumes "attempt = Retries c"
    and "restoreBody bb req w = (req1, w1)"
    and "HttpClient_Do tr req1 w1 = (Inl err, w2)"
  shows "Do_loop c tr cx req bb attempt le w =
         ((None, Some (ErrAfterAttempts (Retries c) err)),
          emit LevelWarn ''request attempt failed''
            [(''attempt'', AInt attempt), (''max_retries'', AInt (Retries c)),
             (''method'', AString (Method req1)), (''url'', AString (URL req1)),
             (''error'', AErr err)] w2)"
  using assms by (subst Do_loop.simps) (simp add: Let_def)

lemma Do_loop_Inl_retry:
  assumes "attempt < Retries c"
    and "restoreBody bb req w = (req1, w1)"
    and "HttpClient_Do tr req1 w1 = (Inl err, w2)"
  shows "Do_loop c tr cx req bb attempt le w =
         Do_loop c tr cx req1 bb (attempt + 1) (Some err)
           (waitBeforeRetry c cx attempt
              (emit LevelWarn ''request attempt failed''
                 [(''attempt'', AInt attempt), (''max_retries'', AInt (Retries c)),
                  (''method'', AString (Method req1)), (''url'', AString (URL req1)),
                  (''error'', AErr err)] w2))"
  using assms by (subst Do_loop.simps) (simp add: Let_def)

text \<open>What each operation leaves of the world, field by field.\<close>

lemma emit_proj [simp]:
  "heap (emit l m as w) = heap w" "nxt (emit l m as w) = nxt w" "now (emit l m as w) = now w"
  "calls (emit l m as w) = calls w" "results (emit l m as w) = results w"
  "waited (emit l m as w) = waited w" "tstate (emit l m as w) = tstate w"
  "logs (emit l m as w) = logs w @ [\<lparr>lvl = l, msg = m, attrs = as\<rparr>]"
  by (simp_all add: emit_def)

lemma CloseBody_proj [simp]:
  "heap (CloseBody r w) = (heap w)(r := (heap w r)\<lparr>sclosed := True\<rparr>)"
  "nxt (CloseBody r w) = nxt w" "now (CloseBody r w) = now w"
  "calls (CloseBody r w) = calls w" "results (CloseBody r w) = results w"
  "waited (CloseBody r w) = waited w" "tstate (CloseBody r w) = tstate w"
  "logs (CloseBody r w) = logs w"
  by (simp_all add: CloseBody_def)

lemma ReadAll_proj [simp]:
  "fst (ReadAll r w) = (sdata (heap w r), serr (heap w r))"
  "heap (snd (ReadAll r w)) = (heap w)(r := (heap w r)\<lparr>sdata := [], sreads := Suc (sreads (heap w r))\<rparr>)"
  "nxt (snd (ReadAll r w)) = nxt w" "now (snd (ReadAll r w)) = now w"
  "calls (snd (ReadAll r w)) = calls w" "results (snd (ReadAll r w)) = results w"
  "waited (snd (ReadAll r w)) = waited w" "tstate (snd (ReadAll r w)) = tstate w"
  "logs (snd (ReadAll r w)) = logs w"
  by (simp_all add: ReadAll_def Let_def)

lemma wait_proj [simp]:
  "heap (waitBeforeRetry c cx k w) = heap w" "nxt (waitBeforeRetry c cx k w) = nxt w"
  "calls (waitBeforeRetry c cx k w) = calls w" "results (waitBeforeRetry c cx k w) = results w"
  "tstate (waitBeforeRetry c cx k w) = tstate w"
  by (simp_all add: waitBeforeRetry_def Let_def split: option.splits)

lemma wait_now:
  "now (waitBeforeRetry c cx k w) =
     (case done_at cx of
        None \<Rightarrow> now w + max 0 (sint (retryDelay c k))
      | Some t \<Rightarrow> if t < now w + max 0 (sint (retryDelay c k)) then max (now w) t
                  else now w + max 0 (sint (retryDelay c k)))"
  by (simp add: waitBeforeRetry_def Let_def split: option.splits)

lemma wait_waited:
  "waited (waitBeforeRetry c cx k w) =
     waited w @ [(k, retryDelay c k,
       (case done_at cx of None \<Rightarrow> False
        | Some t \<Rightarrow> t < now w + max 0 (sint (retryDelay c k))))]"
  by (simp add: waitBeforeRetry_def Let_def split: option.splits)

lemma invoke_proj:
  "calls (snd (invoke tr bo req w)) = calls w @ [observe req w]"
  "results (snd (invoke tr bo req w)) = results w @ [fst (invoke tr bo req w)]"
  "waited (snd (invoke tr bo req w)) = waited w"
  "logs (snd (invoke tr bo req w)) = logs w"
  "now (snd (invoke tr bo req w)) = now w + int (fst (snd (tr (tstate w) (observe req w))))"
  "tstate (snd (invoke tr bo req w)) = snd (snd (tr (tstate w) (observe req w)))"
  by (simp_all add: invoke_def Let_def alloc_def split: prod.splits reply.splits option.splits)

lemma invoke_fst:
  "fst (invoke tr bo req w) =
     (case fst (tr (tstate w) (observe req w)) of
        Fail e \<Rightarrow> Inl e
      | Reply sc b \<Rightarrow> Inr \<lparr>StatusCode = sc,
           RespBody = (case bo b of None \<Rightarrow> None | Some s \<Rightarrow> Some (nxt w))\<rparr>)"
  by (simp add: invoke_def Let_def alloc_def split: prod.splits reply.splits option.splits)

section \<open>The retry predicate and the backoff delay\<close>

lemma client3_eq:
  "client3 = \<lparr>Timeout = 10000000000, Retries = 3, RetryDelay = 100000000,
               MaxRetryWait = 5000000000\<rparr>"
  by (simp add: client3_def New_def WithRetries_def defaultRetries_def defaultHTTPTimeout_def
      defaultRetryDelay_def defaultMaxRetryWait_def)

lemma client40_eq:
  "client40 = \<lparr>Timeout = 10000000000, Retries = 40, RetryDelay = 100000000,
                MaxRetryWait = 5000000000\<rparr>"
  by (simp add: client40_def New_def WithRetries_def defaultRetries_def defaultHTTPTimeout_def
      defaultRetryDelay_def defaultMaxRetryWait_def)

lemma retryDelay_client3:
  "retryDelay client3 1 = 100000000" "retryDelay client3 2 = 200000000"
  by (simp_all add: client3_eq retryDelay_def)

lemma restoreBody_None: "restoreBody None req w = (req, w)"
  by (simp add: restoreBody_def)

lemma sint_two_power:
  assumes "n < 63"
  shows "sint ((2 :: 64 word) ^ n) = 2 ^ n"
proof -
  have lt: "(2::int) ^ n < 2 ^ 63"
    using assms by (intro power_strict_increasing) simp_all
  have "take_bit 64 ((2::int) ^ n) = 2 ^ n"
    using lt by (intro take_bit_int_eq_self) simp_all
  moreover have "uint ((2 :: 64 word) ^ n) = take_bit LENGTH(64) ((2::int) ^ n)"
    using uint_word_of_int_eq[of "2 ^ n", where ?'a = 64] by (simp only: word_of_int_2p)
  ultimately have u: "uint ((2 :: 64 word) ^ n) = 2 ^ n"
    by simp
  have "sint ((2 :: 64 word) ^ n) = signed_take_bit 63 ((2::int) ^ n)"
    by (simp add: sint_uint u)
  also have "\<dots> = 2 ^ n"
  proof (rule signed_take_bit_int_eq_self)
    show "- (2 ^ 63) \<le> (2::int) ^ n"
      by (rule order_trans[of _ 0]) simp_all
    show "(2::int) ^ n < 2 ^ 63" by (rule lt)
  qed
  finally show ?thesis .
qed

text \<open>
  As long as the product fits in 63 bits (and the attempt is at most 63, the initial
  delay not negative), the delay computed is the capped exponential one.
\<close>

lemma retryDelay_exact:
  assumes k: "1 \<le> k" "k \<le> 63"
    and pos: "0 \<le> sint (RetryDelay c)"
    and fit: "sint (RetryDelay c) * 2 ^ nat (k - 1) < 2 ^ 63"
  shows "sint (retryDelay c k) =
         min (sint (RetryDelay c) * 2 ^ nat (k - 1)) (sint (MaxRetryWait c))"
proof -
  have m: "nat ((k - 1) mod 18446744073709551616) = nat (k - 1)"
    using k by simp
  have n: "nat (k - 1) < 63" using k by simp
  have "sint (RetryDelay c * 2 ^ nat (k - 1)) =
        signed_take_bit 63 (sint (RetryDelay c) * sint ((2 :: 64 word) ^ nat (k - 1)))"
    by (simp add: sint_word_ariths)
  also have "\<dots> = signed_take_bit 63 (sint (RetryDelay c) * 2 ^ nat (k - 1))"
    by (simp only: sint_two_power[OF n])
  also have "\<dots> = sint (RetryDelay c) * 2 ^ nat (k - 1)"
  proof (rule signed_take_bit_int_eq_self)
    have "0 \<le> sint (RetryDelay c) * 2 ^ nat (k - 1)" using pos by simp
    then show "- (2 ^ 63) \<le> sint (RetryDelay c) * 2 ^ nat (k - 1)" by simp
    show "sint (RetryDelay c) * 2 ^ nat (k - 1) < 2 ^ 63" by (rule fit)
  qed
  finally have p: "sint (RetryDelay c * 2 ^ nat (k - 1)) =
                   sint (RetryDelay c) * 2 ^ nat (k - 1)" .
  show ?thesis
    by (auto simp: retryDelay_def Let_def m p min_def)
qed

text \<open>
  Claim C5 (the backoff delay between attempt \<open>k\<close> and \<open>k + 1\<close> is
  \<open>min (initialBackoff * 2 ^ (k - 1)) maxBackoff\<close> in exact integer arithmetic), at the
  input where the code departs from it: forty attempts with the default delays of
  100 ms and 5 s. Before attempt 39 the exact product \<open>10^8 * 2^37\<close> ns is far above
  the cap of 5 s, so the claimed delay is 5 s; the 64-bit product of
  \<^verbatim>\<open>waitBeforeRetry\<close> has wrapped to a negative duration, which is below the cap and
  is kept, and the wait returns without any time passing.
\<close>

theorem retryDelay_wraps_at_attempt_38:
  "Retries client40 = 40 \<and>
   min (sint (RetryDelay client40) * 2 ^ 37) (sint (MaxRetryWait client40)) = 5000000000 \<and>
   sint (retryDelay client40 38) = - 4702848726509551616 \<and>
   now (waitBeforeRetry client40 \<lparr>done_at = None\<rparr> 38 (world0 (0::nat))) = now (world0 (0::nat)) \<and>
   waited (waitBeforeRetry client40 \<lparr>done_at = None\<rparr> 38 (world0 (0::nat))) =
     [(38, retryDelay client40 38, False)]"
proof -
  have d: "sint (retryDelay client40 38) = - 4702848726509551616"
    by (simp add: client40_eq retryDelay_def)
  have "now (waitBeforeRetry client40 \<lparr>done_at = None\<rparr> 38 (world0 (0::nat))) = now (world0 (0::nat))"
    by (simp add: wait_now d)
  moreover have "waited (waitBeforeRetry client40 \<lparr>done_at = None\<rparr> 38 (world0 (0::nat))) =
     [(38, retryDelay client40 38, False)]"
    by (simp add: wait_waited world0_def)
  moreover have "min (sint (RetryDelay client40) * 2 ^ 37) (sint (MaxRetryWait client40)) = 5000000000"
    by (simp add: client40_eq)
  moreover have "Retries client40 = 40"
    by (simp add: client40_eq)
  ultimately show ?thesis using d by simp
qed

section \<open>Cancellation during a backoff wait\<close>

lemma observe_cancel_request:
  "call_done (observe cancel_request w) = (50000000 \<le> now w)"
  "call_time (observe cancel_request w) = now w"
  by (simp_all add: observe_def cancel_request_def get_request_def ctx50_def ctx_done_def)

lemma server500_eq:
  "server500 n cl =
     (if call_done cl then (Fail (Err ''context deadline exceeded''), 0, Suc n)
      else (Reply 500 (NewReader []), 0, Suc n))"
  by (simp add: server500_def ctx_aware_def)

lemma server500_now: "now (snd (HttpClient_Do server500 cancel_request w)) = now w"
  by (simp add: HttpClient_Do_def invoke_proj server500_eq)

lemma server500_calls:
  "calls (snd (HttpClient_Do server500 cancel_request w)) = calls w @ [observe cancel_request w]"
  by (simp add: HttpClient_Do_def invoke_proj)

lemma server500_waited: "waited (snd (HttpClient_Do server500 cancel_request w)) = waited w"
  by (simp add: HttpClient_Do_def invoke_proj)

lemma cancel_run_first:
  assumes "now w = 0"
  shows "Do_loop client3 server500 ctx50 cancel_request None 1 le w =
         Do_loop client3 server500 ctx50 cancel_request None 2 le
           (waitBeforeRetry client3 ctx50 1
              (emit LevelWarn ''retrying due to status code''
                 [(''status'', AInt 500), (''attempt'', AInt 1),
                  (''max_retries'', AInt 3), (''url'', AString (URL cancel_request))]
                 (CloseBody (nxt w) (snd (HttpClient_Do server500 cancel_request w)))))"
proof -
  have h: "HttpClient_Do server500 cancel_request w =
           (Inr \<lparr>StatusCode = 500, RespBody = Some (nxt w)\<rparr>,
            snd (HttpClient_Do server500 cancel_request w))"
    using assms
    by (simp add: prod_eq_iff HttpClient_Do_def invoke_fst server500_eq
        observe_cancel_request)
  have "(1::int) < Retries client3" by (simp add: client3_eq)
  from Do_loop_Inr_retry[OF this restoreBody_None h] show ?thesis
    by (simp add: shouldRetry_def client3_eq)
qed

lemma cancel_run_later:
  assumes "50000000 \<le> now w" and "k < 3"
  shows "Do_loop client3 server500 ctx50 cancel_request None k le w =
         Do_loop client3 server500 ctx50 cancel_request None (k + 1)
           (Some (Err ''context deadline exceeded''))
           (waitBeforeRetry client3 ctx50 k
              (emit LevelWarn ''request attempt failed''
                 [(''attempt'', AInt k), (''max_retries'', AInt 3),
                  (''method'', AString (Method cancel_request)),
                  (''url'', AString (URL cancel_request)),
                  (''error'', AErr (Err ''context deadline exceeded''))]
                 (snd (HttpClient_Do server500 cancel_request w))))"
proof -
  have h: "HttpClient_Do server500 cancel_request w =
           (Inl (Err ''context deadline exceeded''),
            snd (HttpClient_Do server500 cancel_request w))"
    using assms
    by (simp add: prod_eq_iff HttpClient_Do_def invoke_fst server500_eq
        observe_cancel_request)
  have "k < Retries client3" using assms by (simp add: client3_eq)
  from Do_loop_Inl_retry[OF this restoreBody_None h] show ?thesis
    by (simp add: client3_eq)
qed

lemma cancel_run_last:
  assumes "50000000 \<le> now w"
  shows "Do_loop client3 server500 ctx50 cancel_request None 3 le w =
         ((None, Some (ErrAfterAttempts 3 (Err ''context deadline exceeded''))),
          emit LevelWarn ''request attempt failed''
            [(''attempt'', AInt 3), (''max_retries'', AInt 3),
             (''method'', AString (Method cancel_request)),
             (''url'', AString (URL cancel_request)),
             (''error'', AErr (Err ''context deadline exceeded''))]
            (snd (HttpClient_Do server500 cancel_request w)))"
proof -
  have h: "HttpClient_Do server500 cancel_request w =
           (Inl (Err ''context deadline exceeded''),
            snd (HttpClient_Do server500 cancel_request w))"
    using assms
    by (simp add: prod_eq_iff HttpClient_Do_def invoke_fst server500_eq
        observe_cancel_request)
  have "(3::int) = Retries client3" by (simp add: client3_eq)
  from Do_loop_Inl_final[OF this restoreBody_None h] show ?thesis
    by (simp add: client3_eq)
qed

text \<open>
  Claim C2 (when the caller's cancellation fires during the backoff wait between attempt
  \<open>k\<close> and \<open>k + 1\<close>, no further transport invocation occurs and the loop is abandoned),
  at an input where the code departs from it: three attempts with the default delays, a
  context that is done after 50 ms, a server that answers 500 at once. The first wait
  (100 ms) is ended by the context at 50 ms: \<^verbatim>\<open>waitBeforeRetry\<close> returns, and returns
  nothing, so the loop goes on. The transport capability is invoked twice more, both
  times at 50 ms with a context that is already done, the second wait is ended by the
  context as well, and the error returned is the one of the third attempt.
\<close>

theorem cancelled_wait_does_not_stop_attempts:
  "fst (Do client3 server500 (Some ctx50) get_request (world0 0)) =
     (None, Some (ErrAfterAttempts 3 (Err ''context deadline exceeded''))) \<and>
   waited (snd (Do client3 server500 (Some ctx50) get_request (world0 0))) =
     [(1, 100000000, True), (2, 200000000, True)] \<and>
   map call_time (calls (snd (Do client3 server500 (Some ctx50) get_request (world0 0)))) =
     [0, 50000000, 50000000] \<and>
   map call_done (calls (snd (Do client3 server500 (Some ctx50) get_request (world0 0)))) =
     [False, True, True]"
proof -
  define w0 where "w0 = world0 (0::nat)"
  have d: "Do client3 server500 (Some ctx50) get_request (world0 0) =
           Do_loop client3 server500 ctx50 cancel_request None 1 None w0"
    by (simp add: Do_def get_request_def cancel_request_def w0_def)
  have n0: "now w0 = 0" and c0: "calls w0 = []" and wt0: "waited w0 = []"
    by (simp_all add: world0_def w0_def)
  define w1 where "w1 = waitBeforeRetry client3 ctx50 1
        (emit LevelWarn ''retrying due to status code''
           [(''status'', AInt 500), (''attempt'', AInt 1),
            (''max_retries'', AInt 3), (''url'', AString (URL cancel_request))]
           (CloseBody (nxt w0) (snd (HttpClient_Do server500 cancel_request w0))))"
  have s1: "Do_loop client3 server500 ctx50 cancel_request None 1 None w0 =
            Do_loop client3 server500 ctx50 cancel_request None 2 None w1"
    unfolding w1_def using cancel_run_first[OF n0] by simp
  have n1: "now w1 = 50000000"
    unfolding w1_def by (simp add: wait_now ctx50_def server500_now n0 retryDelay_client3)
  have c1: "calls w1 = [observe cancel_request w0]"
    unfolding w1_def by (simp add: server500_calls c0)
  have wt1: "waited w1 = [(1, 100000000, True)]"
    unfolding w1_def
    by (simp add: wait_waited ctx50_def server500_now server500_waited n0 wt0
        retryDelay_client3)
  define w2 where "w2 = waitBeforeRetry client3 ctx50 2
        (emit LevelWarn ''request attempt failed''
           [(''attempt'', AInt 2), (''max_retries'', AInt 3),
            (''method'', AString (Method cancel_request)),
            (''url'', AString (URL cancel_request)),
            (''error'', AErr (Err ''context deadline exceeded''))]
           (snd (HttpClient_Do server500 cancel_request w1)))"
  have s2: "Do_loop client3 server500 ctx50 cancel_request None 2 None w1 =
            Do_loop client3 server500 ctx50 cancel_request None 3
              (Some (Err ''context deadline exceeded'')) w2"
    unfolding w2_def using cancel_run_later[of w1 2 None] n1 by simp
  have n2: "now w2 = 50000000"
    unfolding w2_def by (simp add: wait_now ctx50_def server500_now n1 retryDelay_client3)
  have c2: "calls w2 = [observe cancel_request w0, observe cancel_request w1]"
    unfolding w2_def by (simp add: server500_calls c1)
  have wt2: "waited w2 = [(1, 100000000, True), (2, 200000000, True)]"
    unfolding w2_def
    by (simp add: wait_waited ctx50_def server500_now server500_waited n1 wt1
        retryDelay_client3)
  have s3: "Do_loop client3 server500 ctx50 cancel_request None 3
              (Some (Err ''context deadline exceeded'')) w2 =
            ((None, Some (ErrAfterAttempts 3 (Err ''context deadline exceeded''))),
             emit LevelWarn ''request attempt failed''
               [(''attempt'', AInt 3), (''max_retries'', AInt 3),
                (''method'', AString (Method cancel_request)),
                (''url'', AString (URL cancel_request)),
                (''error'', AErr (Err ''context deadline exceeded''))]
               (snd (HttpClient_Do server500 cancel_request w2)))"
    using cancel_run_last[of w2] n2 by simp
  show ?thesis
    by (simp add: d s1 s2 s3 server500_calls server500_waited c2 wt2
        observe_cancel_request n0 n1 n2)
qed

lemma restoreBody_proj [simp]:
  "calls (snd (restoreBody bb req w)) = calls w"
  "results (snd (restoreBody bb req w)) = results w"
  "waited (snd (restoreBody bb req w)) = waited w"
  "logs (snd (restoreBody bb req w)) = logs w"
  "now (snd (restoreBody bb req w)) = now w"
  "tstate (snd (restoreBody bb req w)) = tstate w"
  by (simp_all add: restoreBody_def alloc_def split: option.splits)

lemma HttpClient_Do_proj:
  "calls (snd (HttpClient_Do tr req w)) = calls w @ [observe req w]"
  "results (snd (HttpClient_Do tr req w)) = results w @ [fst (HttpClient_Do tr req w)]"
  "waited (snd (HttpClient_Do tr req w)) = waited w"
  "logs (snd (HttpClient_Do tr req w)) = logs w"
  by (simp_all add: HttpClient_Do_def invoke_proj)





section \<open>What the executor returns\<close>


lemma Do_unfold:
  "Do c tr cxo req w =
     (case Body req of
        None \<Rightarrow>
          Do_loop c tr (case cxo of None \<Rightarrow> rctx req | Some x \<Rightarrow> x)
            (req\<lparr>rctx := (case cxo of None \<Rightarrow> rctx req | Some x \<Rightarrow> x)\<rparr>) None 1 None w
      | Some r \<Rightarrow>
          (case serr (heap w r) of
             Some e \<Rightarrow> ((None, Some (ErrBodyRead e)), snd (ReadAll r w))
           | None \<Rightarrow>
               Do_loop c tr (case cxo of None \<Rightarrow> rctx req | Some x \<Rightarrow> x)
                 (req\<lparr>rctx := (case cxo of None \<Rightarrow> rctx req | Some x \<Rightarrow> x)\<rparr>)
                 (Some (sdata (heap w r))) 1 None (CloseBody r (snd (ReadAll r w)))))"
  by (simp add: Do_def ReadAll_def Let_def split: option.splits)





text \<open>
  Claim C6: when reading the request body fails, \<^verbatim>\<open>Do\<close> returns a nil response and
  the body-read error wrapping the cause, and the transport capability has not been
  invoked (nor has any wait taken place).
\<close>

theorem body_read_error_no_attempt:
  "Body req = Some r \<and> serr (heap w r) = Some e \<longrightarrow>
     fst (Do c tr cxo req w) = (None, Some (ErrBodyRead e)) \<and>
     calls (snd (Do c tr cxo req w)) = calls w \<and>
     results (snd (Do c tr cxo req w)) = results w \<and>
     waited (snd (Do c tr cxo req w)) = waited w"
  by (simp add: Do_unfold)

theorem body_read_error_no_attempt_witness:
  "Body post_request = Some 0 \<and> serr (heap errorReader_world 0) = Some (Err ''read error'') \<and>
   fst (Do client3 (server 200) None post_request errorReader_world) =
     (None, Some (ErrBodyRead (Err ''read error''))) \<and>
   calls (snd (Do client3 (server 200) None post_request errorReader_world)) = []"
  using body_read_error_no_attempt[where req = post_request and r = 0
      and w = errorReader_world and e = "Err ''read error''" and c = client3
      and tr = "server 200" and cxo = None]
  by (simp add: post_request_def errorReader_world_def)

text \<open>
  Claim C10: with a retries setting \<open>n \<le> 0\<close> and a body that is absent or reads
  without error, \<^verbatim>\<open>Do\<close> does not invoke the transport capability and returns a nil
  response with the error "request failed after n attempts with unknown error".
\<close>

theorem no_attempts_unknown_error:
  "n \<le> 0 \<and> (case Body req of None \<Rightarrow> True | Some r \<Rightarrow> serr (heap w r) = None) \<longrightarrow>
     fst (Do (WithRetries n c) tr cxo req w) = (None, Some (ErrUnknown n)) \<and>
     calls (snd (Do (WithRetries n c) tr cxo req w)) = calls w \<and>
     results (snd (Do (WithRetries n c) tr cxo req w)) = results w"
  by (auto simp: Do_unfold WithRetries_def Do_loop_exit split: option.splits)

theorem no_attempts_unknown_error_witness:
  "(0::int) \<le> 0 \<and> Body get_request = None \<and>
   fst (Do (WithRetries 0 client3) (server 200) None get_request (world0 0)) =
     (None, Some (ErrUnknown 0)) \<and>
   calls (snd (Do (WithRetries 0 client3) (server 200) None get_request (world0 0))) = []"
  using no_attempts_unknown_error[where n = 0 and req = get_request and w = "world0 0"
      and c = client3 and tr = "server 200" and cxo = None]
  by (simp add: get_request_def world0_def)

section \<open>A server that always answers 500\<close>

lemma HttpClient_Do_fst:
  "fst (HttpClient_Do tr req w) =
     (case fst (tr (tstate w) (observe req w)) of
        Fail e \<Rightarrow> Inl e
      | Reply sc b \<Rightarrow> Inr \<lparr>StatusCode = sc, RespBody = Some (nxt w)\<rparr>)"
  by (simp add: HttpClient_Do_def invoke_fst split: reply.splits)

lemma Do_loop_all_500:
  "\<forall>ts cl. \<exists>b d ts'. tr ts cl = (Reply 500 b, d, ts') \<Longrightarrow> attempt \<le> Retries c \<Longrightarrow>
     length (calls (snd (Do_loop c tr cx req bb attempt le w))) =
       length (calls w) + nat (Retries c - attempt + 1) \<and>
     length (results (snd (Do_loop c tr cx req bb attempt le w))) =
       length (results w) + nat (Retries c - attempt + 1) \<and>
     (\<exists>resp. fst (Do_loop c tr cx req bb attempt le w) = (Some resp, None) \<and>
        StatusCode resp = 500 \<and>
        last (results (snd (Do_loop c tr cx req bb attempt le w))) = Inr resp)"
proof (induction c tr cx req bb attempt le w rule: Do_loop.induct)
  case (1 c tr cx req bb attempt le w)
  obtain req1 w1 where rb: "restoreBody bb req w = (req1, w1)" by force
  have w1: "w1 = snd (restoreBody bb req w)" using rb by simp
  obtain res w2 where hd: "HttpClient_Do tr req1 w1 = (res, w2)" by force
  have w2: "w2 = snd (HttpClient_Do tr req1 w1)" and res: "res = fst (HttpClient_Do tr req1 w1)"
    using hd by simp_all
  obtain b d ts' where t: "tr (tstate w1) (observe req1 w1) = (Reply 500 b, d, ts')"
    using "1.prems"(1) by blast
  define resp where "resp = \<lparr>StatusCode = 500, RespBody = Some (nxt w1)\<rparr>"
  have r: "res = Inr resp"
    by (simp add: res HttpClient_Do_fst t resp_def)
  have sr: "shouldRetry (StatusCode resp)" by (simp add: resp_def shouldRetry_def)
  have cw2: "calls w2 = calls w @ [observe req1 w1]"
    by (simp add: w2 w1 HttpClient_Do_proj)
  have rw2: "results w2 = results w @ [Inr resp]"
    using r by (simp add: w2 w1 HttpClient_Do_proj res)
  show ?case
  proof (cases "attempt < Retries c")
    case False
    with "1.prems"(2) have eq: "attempt = Retries c" by simp
    have "Do_loop c tr cx req bb attempt le w = ((Some resp, None), w2)"
      using Do_loop_Inr_final[OF "1.prems"(2) rb, of tr resp w2 cx le] hd r False by simp
    then show ?thesis by (simp add: cw2 rw2 eq resp_def)
  next
    case lt: True
    define w4 where "w4 = waitBeforeRetry c cx attempt
              (emit LevelWarn ''retrying due to status code''
                 [(''status'', AInt (StatusCode resp)), (''attempt'', AInt attempt),
                  (''max_retries'', AInt (Retries c)), (''url'', AString (URL req1))]
                 (case RespBody resp of None \<Rightarrow> w2 | Some r \<Rightarrow> CloseBody r w2))"
    have step: "Do_loop c tr cx req bb attempt le w = Do_loop c tr cx req1 bb (attempt + 1) le w4"
      unfolding w4_def using Do_loop_Inr_retry[OF lt rb _ sr, of tr w2 cx le] hd r by simp
    have cw4: "calls w4 = calls w2" and rw4: "results w4 = results w2"
      by (simp_all add: w4_def resp_def)
    have le': "attempt + 1 \<le> Retries c" using lt by simp
    have IH: "length (calls (snd (Do_loop c tr cx req1 bb (attempt + 1) le w4))) =
       length (calls w4) + nat (Retries c - (attempt + 1) + 1) \<and>
     length (results (snd (Do_loop c tr cx req1 bb (attempt + 1) le w4))) =
       length (results w4) + nat (Retries c - (attempt + 1) + 1) \<and>
     (\<exists>resp. fst (Do_loop c tr cx req1 bb (attempt + 1) le w4) = (Some resp, None) \<and>
        StatusCode resp = 500 \<and>
        last (results (snd (Do_loop c tr cx req1 bb (attempt + 1) le w4))) = Inr resp)"
      using "1.IH"(2)[OF "1.prems"(2) rb[symmetric] refl hd[symmetric] refl r _ refl refl
          "1.prems"(1) le'] sr lt
      unfolding w4_def by simp
    have n: "Suc (nat (Retries c - (attempt + 1) + 1)) = nat (Retries c - attempt + 1)"
      using lt by simp
    show ?thesis using IH n by (simp add: step cw4 rw4 cw2 rw2)
  qed
qed


lemma Do_loop_start:
  "calls w' = calls w \<Longrightarrow> results w' = results w \<Longrightarrow>
   1 \<le> Retries c \<Longrightarrow> \<forall>ts cl. \<exists>b d ts'. tr ts cl = (Reply 500 b, d, ts') \<Longrightarrow>
   length (calls (snd (Do_loop c tr cx req bb 1 le w'))) = length (calls w) + nat (Retries c) \<and>
   length (results (snd (Do_loop c tr cx req bb 1 le w'))) = length (results w) + nat (Retries c) \<and>
   (\<exists>resp. fst (Do_loop c tr cx req bb 1 le w') = (Some resp, None) \<and>
      StatusCode resp = 500 \<and>
      last (results (snd (Do_loop c tr cx req bb 1 le w'))) = Inr resp)"
  using Do_loop_all_500[of tr 1 c cx req bb le w'] by simp

text \<open>
  Claim C8: with \<open>N = Retries \<ge> 1\<close> attempts and a transport capability that answers
  every invocation with status 500, \<^verbatim>\<open>Do\<close> invokes it exactly \<open>N\<close> times and returns,
  with a nil error, the response of the last invocation, whose status is 500. (The
  request body, when there is one, reads without error; a context that is done changes
  nothing, since this transport does not look at it.)
\<close>

theorem always_500_all_attempts:
  "1 \<le> Retries c \<and> (\<forall>ts cl. \<exists>b d ts'. tr ts cl = (Reply 500 b, d, ts')) \<and>
   (case Body req of None \<Rightarrow> True | Some r \<Rightarrow> serr (heap w r) = None) \<longrightarrow>
     length (calls (snd (Do c tr cxo req w))) = length (calls w) + nat (Retries c) \<and>
     length (results (snd (Do c tr cxo req w))) = length (results w) + nat (Retries c) \<and>
     (\<exists>resp. fst (Do c tr cxo req w) = (Some resp, None) \<and> StatusCode resp = 500 \<and>
        last (results (snd (Do c tr cxo req w))) = Inr resp)"
proof (intro impI, elim conjE)
  assume n: "1 \<le> Retries c" and tr: "\<forall>ts cl. \<exists>b d ts'. tr ts cl = (Reply 500 b, d, ts')"
    and b: "case Body req of None \<Rightarrow> True | Some r \<Rightarrow> serr (heap w r) = None"
  show "length (calls (snd (Do c tr cxo req w))) = length (calls w) + nat (Retries c) \<and>
     length (results (snd (Do c tr cxo req w))) = length (results w) + nat (Retries c) \<and>
     (\<exists>resp. fst (Do c tr cxo req w) = (Some resp, None) \<and> StatusCode resp = 500 \<and>
        last (results (snd (Do c tr cxo req w))) = Inr resp)"
  proof (cases "Body req")
    case None
    then show ?thesis
      using Do_loop_start[OF refl refl n tr] by (simp add: Do_unfold)
  next
    case (Some r)
    have c: "calls (CloseBody r (snd (ReadAll r w))) = calls w"
      and rs: "results (CloseBody r (snd (ReadAll r w))) = results w" by simp_all
    show ?thesis
      using Do_loop_start[OF c rs n tr] Some b by (simp add: Do_unfold)
  qed
qed

lemma server_always: "\<forall>ts cl. \<exists>b d ts'. server 500 ts cl = (Reply 500 b, d, ts')"
  by (simp add: server_def always_def)

theorem always_500_all_attempts_witness:
  "1 \<le> Retries client3 \<and>
   length (calls (snd (Do client3 (server 500) None get_request (world0 0)))) = 3 \<and>
   (\<exists>resp. fst (Do client3 (server 500) None get_request (world0 0)) = (Some resp, None) \<and>
      StatusCode resp = 500 \<and>
      last (results (snd (Do client3 (server 500) None get_request (world0 0)))) = Inr resp)"
  using always_500_all_attempts[where c = client3 and tr = "server 500" and req = get_request
      and w = "world0 0" and cxo = None] server_always
  by (simp add: client3_eq get_request_def world0_def)

section \<open>The request body across attempts\<close>

lemma HttpClient_Do_nxt: "nxt w \<le> nxt (snd (HttpClient_Do tr req w))"
  by (simp add: HttpClient_Do_def invoke_def Let_def alloc_def
      split: prod.splits reply.splits option.splits)

lemma HttpClient_Do_heap:
  "r < nxt w \<Longrightarrow> Body req \<noteq> Some r \<Longrightarrow> heap (snd (HttpClient_Do tr req w)) r = heap w r"
  by (auto simp: HttpClient_Do_def invoke_def Let_def alloc_def
      split: prod.splits reply.splits option.splits)

lemma HttpClient_Do_body_ref:
  "fst (HttpClient_Do tr req w) = Inr resp \<Longrightarrow> RespBody resp = Some (nxt w)"
  by (auto simp: HttpClient_Do_fst split: reply.splits)

lemma restoreBody_Some:
  "restoreBody (Some b) req w =
     (req\<lparr>Body := Some (nxt w)\<rparr>,
      w\<lparr>heap := (heap w)(nxt w := NewReader b), nxt := Suc (nxt w)\<rparr>)"
  by (simp add: restoreBody_def alloc_def)

text \<open>One iteration with a buffered body, up to the invocation.\<close>

lemma attempt_with_body:
  assumes rb: "restoreBody (Some b) req w = (req1, w1)"
    and w2: "w2 = snd (HttpClient_Do tr req1 w1)"
  shows "calls w2 = calls w @ [observe req1 w1]"
    and "call_body (observe req1 w1) = Some (nxt w, NewReader b)"
    and "Suc (nxt w) \<le> nxt w2"
    and "\<forall>r<nxt w. heap w2 r = heap w r"
proof -
  have r1: "req1 = req\<lparr>Body := Some (nxt w)\<rparr>"
    and w1: "w1 = w\<lparr>heap := (heap w)(nxt w := NewReader b), nxt := Suc (nxt w)\<rparr>"
    using rb by (simp_all add: restoreBody_Some)
  show "calls w2 = calls w @ [observe req1 w1]"
    by (simp add: w2 HttpClient_Do_proj w1)
  show "call_body (observe req1 w1) = Some (nxt w, NewReader b)"
    by (simp add: observe_def r1 w1)
  have "nxt w1 \<le> nxt w2" unfolding w2 by (rule HttpClient_Do_nxt)
  then show "Suc (nxt w) \<le> nxt w2" by (simp add: w1)
  show "\<forall>r<nxt w. heap w2 r = heap w r"
  proof (intro allI impI)
    fix r assume lt: "r < nxt w"
    have "r < nxt w1" using lt by (simp add: w1)
    moreover have "Body req1 \<noteq> Some r" using lt by (simp add: r1)
    ultimately have "heap w2 r = heap w1 r" unfolding w2 by (rule HttpClient_Do_heap)
    then show "heap w2 r = heap w r" using lt by (simp add: w1)
  qed
qed

lemma fresh_calls_refl: "fresh_calls b w w"
  by (simp add: fresh_calls_def)

lemma fresh_calls_step:
  assumes c: "calls w4 = calls w @ [cl]"
    and cb: "call_body cl = Some (nxt w, NewReader b)"
    and n: "Suc (nxt w) \<le> nxt w4"
    and h: "\<forall>r<nxt w. heap w4 r = heap w r"
    and rest: "fresh_calls b w4 w'"
  shows "fresh_calls b w w'"
proof -
  from rest obtain cs where cs: "calls w' = calls w4 @ cs"
    and refs: "\<forall>cl\<in>set cs. \<exists>r. call_body cl = Some (r, NewReader b) \<and> nxt w4 \<le> r"
    and d: "distinct (map call_body cs)"
    and h': "\<forall>r<nxt w4. heap w' r = heap w4 r" and n': "nxt w4 \<le> nxt w'"
    unfolding fresh_calls_def by blast
  have "calls w' = calls w @ (cl # cs)" by (simp add: cs c)
  moreover have "\<forall>x\<in>set (cl # cs). \<exists>r. call_body x = Some (r, NewReader b) \<and> nxt w \<le> r"
    using refs cb n by fastforce
  moreover have "call_body cl \<notin> set (map call_body cs)"
    using refs cb n by fastforce
  then have "distinct (map call_body (cl # cs))" using d by simp
  moreover have "\<forall>r<nxt w. heap w' r = heap w r" using h h' n by simp
  moreover have "nxt w \<le> nxt w'" using n n' by simp
  ultimately show ?thesis unfolding fresh_calls_def by blast
qed

lemma Do_loop_fresh:
  "bb = Some b \<Longrightarrow> fresh_calls b w (snd (Do_loop c tr cx req bb attempt le w))"
proof (induction c tr cx req bb attempt le w rule: Do_loop.induct)
  case (1 c tr cx req bb attempt le w)
  show ?case
  proof (cases "attempt \<le> Retries c")
    case False
    then show ?thesis by (simp add: Do_loop_exit fresh_calls_refl)
  next
    case True
    obtain req1 w1 where rb: "restoreBody bb req w = (req1, w1)" by force
    obtain res w2 where hd: "HttpClient_Do tr req1 w1 = (res, w2)" by force
    have w2: "w2 = snd (HttpClient_Do tr req1 w1)" using hd by simp
    have rb': "restoreBody (Some b) req w = (req1, w1)" using rb "1.prems" by simp
    note a = attempt_with_body[OF rb' w2]
    show ?thesis
    proof (cases res)
      case (Inl err)
      define w3 where "w3 = emit LevelWarn ''request attempt failed''
            [(''attempt'', AInt attempt), (''max_retries'', AInt (Retries c)),
             (''method'', AString (Method req1)), (''url'', AString (URL req1)),
             (''error'', AErr err)] w2"
      show ?thesis
      proof (cases "attempt < Retries c")
        case False
        with True have eq: "attempt = Retries c" by simp
        have "snd (Do_loop c tr cx req bb attempt le w) = w3"
          unfolding w3_def using Do_loop_Inl_final[OF eq rb, of tr err w2 cx le] hd Inl by simp
        moreover have "fresh_calls b w w3"
          by (rule fresh_calls_step[OF _ a(2) _ _ fresh_calls_refl])
             (simp_all add: w3_def a)
        ultimately show ?thesis by simp
      next
        case lt: True
        define w4 where "w4 = waitBeforeRetry c cx attempt w3"
        have step: "Do_loop c tr cx req bb attempt le w =
                    Do_loop c tr cx req1 bb (attempt + 1) (Some err) w4"
          unfolding w4_def w3_def using Do_loop_Inl_retry[OF lt rb, of tr err w2 cx le] hd Inl
          by simp
        have nl: "\<not> Retries c \<le> attempt" using lt by simp
        have IH: "fresh_calls b w4 (snd (Do_loop c tr cx req1 bb (attempt + 1) (Some err) w4))"
          using "1.IH"(1)[OF True rb[symmetric] refl hd[symmetric] refl Inl refl nl "1.prems"]
          unfolding w4_def w3_def by simp
        show ?thesis unfolding step
          by (rule fresh_calls_step[OF _ a(2) _ _ IH]) (simp_all add: w4_def w3_def a)
      qed
    next
      case (Inr resp)
      show ?thesis
      proof (cases "shouldRetry (StatusCode resp) \<and> attempt < Retries c")
        case False
        have "snd (Do_loop c tr cx req bb attempt le w) = w2"
          using Do_loop_Inr_final[OF True rb, of tr resp w2 cx le] hd Inr False by simp
        moreover have "fresh_calls b w w2"
          by (rule fresh_calls_step[OF _ a(2) _ _ fresh_calls_refl]) (simp_all add: a)
        ultimately show ?thesis by simp
      next
        case sr: True
        have rbody: "RespBody resp = Some (nxt w1)"
          using HttpClient_Do_body_ref[of tr req1 w1 resp] hd Inr by simp
        have nw1: "nxt w1 = Suc (nxt w)" using rb' by (auto simp: restoreBody_Some)
        define w4 where "w4 = waitBeforeRetry c cx attempt
              (emit LevelWarn ''retrying due to status code''
                 [(''status'', AInt (StatusCode resp)), (''attempt'', AInt attempt),
                  (''max_retries'', AInt (Retries c)), (''url'', AString (URL req1))]
                 (case RespBody resp of None \<Rightarrow> w2 | Some r \<Rightarrow> CloseBody r w2))"
        have step: "Do_loop c tr cx req bb attempt le w =
                    Do_loop c tr cx req1 bb (attempt + 1) le w4"
          unfolding w4_def using Do_loop_Inr_retry[OF _ rb _ _, of attempt c tr resp w2 cx le] hd Inr sr
          by simp
        have IH: "fresh_calls b w4 (snd (Do_loop c tr cx req1 bb (attempt + 1) le w4))"
          using "1.IH"(2)[OF True rb[symmetric] refl hd[symmetric] refl Inr sr refl refl "1.prems"]
          unfolding w4_def by simp
        show ?thesis unfolding step
          by (rule fresh_calls_step[OF _ a(2) _ _ IH]) (simp_all add: w4_def a rbody nw1)
      qed
    qed
  qed
qed

lemma attempts_made_last:
  assumes "calls w' = calls w @ [cl]" and "results w' = results w @ [x]"
    and "waited w' = waited w" and "attempt \<le> Retries c"
  shows "attempts_made c attempt w w'"
  unfolding attempts_made_def using assms by (intro exI[of _ "[]"]) simp

lemma attempts_made_retry:
  assumes c: "calls w4 = calls w @ [cl]" and r: "results w4 = results w @ [x]"
    and wt: "waited w4 = waited w @ [(attempt, d, f)]"
    and rest: "attempts_made c (attempt + 1) w4 w'"
  shows "attempts_made c attempt w w'"
proof -
  from rest obtain ws where ws: "waited w' = waited w4 @ ws"
    and nums: "map fst ws = [attempt + 1 .. attempt + 1 + int (length ws) - 1]"
    and cl: "length (calls w') = length (calls w4) + Suc (length ws)"
    and rl: "length (results w') = length (results w4) + Suc (length ws)"
    and bound: "int (Suc (length ws)) \<le> Retries c - (attempt + 1) + 1"
    unfolding attempts_made_def by blast
  have "[attempt .. attempt + int (length ((attempt, d, f) # ws)) - 1] =
        attempt # [attempt + 1 .. attempt + 1 + int (length ws) - 1]"
    by (simp add: upto_rec1[of attempt] algebra_simps)
  then have "map fst ((attempt, d, f) # ws) =
             [attempt .. attempt + int (length ((attempt, d, f) # ws)) - 1]"
    using nums by simp
  moreover have "waited w' = waited w @ ((attempt, d, f) # ws)" by (simp add: ws wt)
  moreover have "length (calls w') = length (calls w) + Suc (length ((attempt, d, f) # ws))"
    by (simp add: cl c)
  moreover have "length (results w') = length (results w) + Suc (length ((attempt, d, f) # ws))"
    by (simp add: rl r)
  moreover have "int (Suc (length ((attempt, d, f) # ws))) \<le> Retries c - attempt + 1"
    using bound by simp
  ultimately show ?thesis unfolding attempts_made_def by blast
qed

lemma Do_loop_attempts:
  "attempt \<le> Retries c \<Longrightarrow>
   attempts_made c attempt w (snd (Do_loop c tr cx req bb attempt le w))"
proof (induction c tr cx req bb attempt le w rule: Do_loop.induct)
  case (1 c tr cx req bb attempt le w)
  note True = "1.prems"
  obtain req1 w1 where rb: "restoreBody bb req w = (req1, w1)" by force
  have w1: "w1 = snd (restoreBody bb req w)" using rb by simp
  obtain res w2 where hd: "HttpClient_Do tr req1 w1 = (res, w2)" by force
  have w2: "w2 = snd (HttpClient_Do tr req1 w1)" and res: "res = fst (HttpClient_Do tr req1 w1)"
    using hd by simp_all
  have c2: "calls w2 = calls w @ [observe req1 w1]"
    and r2: "results w2 = results w @ [res]"
    and wt2: "waited w2 = waited w"
    by (simp_all add: w2 w1 res HttpClient_Do_proj)
  show ?case
  proof (cases res)
    case (Inl err)
    define w3 where "w3 = emit LevelWarn ''request attempt failed''
          [(''attempt'', AInt attempt), (''max_retries'', AInt (Retries c)),
           (''method'', AString (Method req1)), (''url'', AString (URL req1)),
           (''error'', AErr err)] w2"
    show ?thesis
    proof (cases "attempt < Retries c")
      case False
      with True have eq: "attempt = Retries c" by simp
      have "snd (Do_loop c tr cx req bb attempt le w) = w3"
        unfolding w3_def using Do_loop_Inl_final[OF eq rb, of tr err w2 cx le] hd Inl by simp
      moreover have "attempts_made c attempt w w3"
        by (rule attempts_made_last[where cl = "observe req1 w1" and x = res])
           (simp_all add: w3_def c2 r2 wt2 True)
      ultimately show ?thesis by simp
    next
      case lt: True
      define w4 where "w4 = waitBeforeRetry c cx attempt w3"
      have step: "Do_loop c tr cx req bb attempt le w =
                  Do_loop c tr cx req1 bb (attempt + 1) (Some err) w4"
        unfolding w4_def w3_def using Do_loop_Inl_retry[OF lt rb, of tr err w2 cx le] hd Inl
        by simp
      have nl: "\<not> Retries c \<le> attempt" and le': "attempt + 1 \<le> Retries c" using lt by simp_all
      have IH: "attempts_made c (attempt + 1) w4
                  (snd (Do_loop c tr cx req1 bb (attempt + 1) (Some err) w4))"
        using "1.IH"(1)[OF True rb[symmetric] refl hd[symmetric] refl Inl refl nl le']
        unfolding w4_def w3_def by simp
      show ?thesis unfolding step
        by (rule attempts_made_retry[OF _ _ _ IH, where cl = "observe req1 w1" and x = res])
           (simp_all add: w4_def w3_def c2 r2 wt2 wait_waited)
    qed
  next
    case (Inr resp)
    show ?thesis
    proof (cases "shouldRetry (StatusCode resp) \<and> attempt < Retries c")
      case False
      have "snd (Do_loop c tr cx req bb attempt le w) = w2"
        using Do_loop_Inr_final[OF True rb, of tr resp w2 cx le] hd Inr False by simp
      moreover have "attempts_made c attempt w w2"
        by (rule attempts_made_last[OF c2 r2 wt2 True])
      ultimately show ?thesis by simp
    next
      case sr: True
      define w4 where "w4 = waitBeforeRetry c cx attempt
            (emit LevelWarn ''retrying due to status code''
               [(''status'', AInt (StatusCode resp)), (''attempt'', AInt attempt),
                (''max_retries'', AInt (Retries c)), (''url'', AString (URL req1))]
               (case RespBody resp of None \<Rightarrow> w2 | Some r \<Rightarrow> CloseBody r w2))"
      have step: "Do_loop c tr cx req bb attempt le w =
                  Do_loop c tr cx req1 bb (attempt + 1) le w4"
        unfolding w4_def using Do_loop_Inr_retry[OF _ rb _ _, of attempt c tr resp w2 cx le] hd Inr sr
        by simp
      have le': "attempt + 1 \<le> Retries c" using sr by simp
      have IH: "attempts_made c (attempt + 1) w4 (snd (Do_loop c tr cx req1 bb (attempt + 1) le w4))"
        using "1.IH"(2)[OF True rb[symmetric] refl hd[symmetric] refl Inr sr refl refl le']
        unfolding w4_def by simp
      have c4: "calls w4 = calls w @ [observe req1 w1]"
        and r4: "results w4 = results w @ [res]"
        by (cases "RespBody resp"; simp add: w4_def c2 r2)+
      have "\<exists>d f. waited w4 = waited w @ [(attempt, d, f)]"
        by (cases "RespBody resp"; simp add: w4_def wt2 wait_waited)
      then obtain d f where wt4: "waited w4 = waited w @ [(attempt, d, f)]" by blast
      show ?thesis unfolding step
        by (rule attempts_made_retry[OF c4 r4 wt4 IH])
    qed
  qed
qed


text \<open>
  Claim C1: for a request with a body (an existing stream \<open>r0\<close>), \<^verbatim>\<open>Do\<close> reads the
  caller's stream exactly once, whatever the number of attempts, and every invocation of
  the transport capability it makes is handed an unread, unclosed stream over exactly
  the bytes the caller's stream held, at a reference that is new (not the caller's
  stream, not in use before the call) and different from that of every other attempt.
  When the body reads without error and at least one attempt is allowed, attempts
  \<open>1, \<dots>, K\<close> are made for some \<open>K\<close> between 1 and \<^verbatim>\<open>Retries\<close>: there are exactly
  \<open>K\<close> such invocations, one per attempt, with one backoff wait after each of the
  attempts \<open>1, \<dots>, K - 1\<close>.
\<close>

theorem body_replayed_on_every_attempt:
  "Body req = Some r0 \<and> r0 < nxt w \<longrightarrow>
     sreads (heap (snd (Do c tr cxo req w)) r0) = Suc (sreads (heap w r0)) \<and>
     (\<exists>cs ws. calls (snd (Do c tr cxo req w)) = calls w @ cs \<and>
        waited (snd (Do c tr cxo req w)) = waited w @ ws \<and>
        (\<forall>cl\<in>set cs. \<exists>r. call_body cl = Some (r, NewReader (sdata (heap w r0))) \<and>
                          r \<noteq> r0 \<and> nxt w \<le> r) \<and>
        distinct (map call_body cs) \<and>
        (serr (heap w r0) = None \<and> 1 \<le> Retries c \<longrightarrow>
           length cs = Suc (length ws) \<and> map fst ws = [1 .. int (length ws)] \<and>
           int (length cs) \<le> Retries c))"
proof (intro impI, elim conjE)
  assume b: "Body req = Some r0" and lt: "r0 < nxt w"
  show "sreads (heap (snd (Do c tr cxo req w)) r0) = Suc (sreads (heap w r0)) \<and>
     (\<exists>cs ws. calls (snd (Do c tr cxo req w)) = calls w @ cs \<and>
        waited (snd (Do c tr cxo req w)) = waited w @ ws \<and>
        (\<forall>cl\<in>set cs. \<exists>r. call_body cl = Some (r, NewReader (sdata (heap w r0))) \<and>
                          r \<noteq> r0 \<and> nxt w \<le> r) \<and>
        distinct (map call_body cs) \<and>
        (serr (heap w r0) = None \<and> 1 \<le> Retries c \<longrightarrow>
           length cs = Suc (length ws) \<and> map fst ws = [1 .. int (length ws)] \<and>
           int (length cs) \<le> Retries c))"
  proof (cases "serr (heap w r0)")
    case (Some e)
    then show ?thesis using b by (simp add: Do_unfold)
  next
    case None
    define w' where "w' = CloseBody r0 (snd (ReadAll r0 w))"
    define cx where "cx = (case cxo of None \<Rightarrow> rctx req | Some x \<Rightarrow> x)"
    define R where "R = Do_loop c tr cx (req\<lparr>rctx := cx\<rparr>) (Some (sdata (heap w r0))) 1 None w'"
    have d: "Do c tr cxo req w = R"
      using b None by (simp add: Do_unfold R_def w'_def cx_def)
    have n: "nxt w' = nxt w" and c: "calls w' = calls w" and wt: "waited w' = waited w"
      and h: "sreads (heap w' r0) = Suc (sreads (heap w r0))"
      by (simp_all add: w'_def)
    have "fresh_calls (sdata (heap w r0)) w' (snd R)"
      unfolding R_def by (rule Do_loop_fresh) simp
    then obtain cs where cs: "calls (snd R) = calls w' @ cs"
      and refs: "\<forall>cl\<in>set cs. \<exists>r. call_body cl = Some (r, NewReader (sdata (heap w r0))) \<and>
                                 nxt w' \<le> r"
      and dist: "distinct (map call_body cs)"
      and keep: "\<forall>r<nxt w'. heap (snd R) r = heap w' r"
      unfolding fresh_calls_def by blast
    have reads: "sreads (heap (snd R) r0) = Suc (sreads (heap w r0))"
      using keep lt n h by simp
    have calls: "calls (snd R) = calls w @ cs" using cs c by simp
    have fresh: "\<forall>cl\<in>set cs. \<exists>r. call_body cl = Some (r, NewReader (sdata (heap w r0))) \<and>
                                 r \<noteq> r0 \<and> nxt w \<le> r"
      using refs lt n by fastforce
    show ?thesis
    proof (cases "1 \<le> Retries c")
      case False
      have "R = ((None, Some (ErrUnknown (Retries c))), w')"
        unfolding R_def using False by (simp add: Do_loop_exit)
      then have "waited (snd R) = waited w @ []" by (simp add: wt)
      then show ?thesis using reads calls fresh dist False unfolding d by blast
    next
      case True
      have "attempts_made c 1 w' (snd R)"
        unfolding R_def by (rule Do_loop_attempts[OF True])
      then obtain ws where ws: "waited (snd R) = waited w' @ ws"
        and nums: "map fst ws = [1 .. 1 + int (length ws) - 1]"
        and cl: "length (calls (snd R)) = length (calls w') + Suc (length ws)"
        and bound: "int (Suc (length ws)) \<le> Retries c - 1 + 1"
        unfolding attempts_made_def by blast
      have len: "length cs = Suc (length ws)" using cl cs by simp
      have "waited (snd R) = waited w @ ws" using ws wt by simp
      moreover have "map fst ws = [1 .. int (length ws)]" using nums by simp
      moreover have "int (length cs) \<le> Retries c" using bound len by simp
      ultimately show ?thesis using reads calls fresh dist len unfolding d by blast
    qed
  qed
qed


text \<open>
  The run of the scenario "first attempt network error, second attempt succeeds" with
  the body \<open>payload\<close>: both invocations are handed a new stream over \<open>payload\<close>.
\<close>

lemma flaky_eq:
  "flaky n cl = (if n < 1 then Fail (Err ''connection refused'') else Reply 200 (NewReader []),
                 0, Suc n)"
  by (simp add: flaky_def scripted_def)

lemma HttpClient_Do_state:
  "tstate (snd (HttpClient_Do tr req w)) = snd (snd (tr (tstate w) (observe req w)))"
  "nxt (snd (HttpClient_Do tr req w)) =
     (case fst (tr (tstate w) (observe req w)) of Fail e \<Rightarrow> nxt w | Reply sc b \<Rightarrow> Suc (nxt w))"
  by (simp_all add: HttpClient_Do_def invoke_def Let_def alloc_def
      split: prod.splits reply.splits option.splits)

lemma restoreBody_Some_proj:
  "nxt (snd (restoreBody (Some b) req w)) = Suc (nxt w)"
  "fst (restoreBody (Some b) req w) = req\<lparr>Body := Some (nxt w)\<rparr>"
  by (simp_all add: restoreBody_Some)

theorem body_replayed_on_every_attempt_witness:
  "Body post_request = Some 0 \<and> 0 < nxt payload_world \<and>
   serr (heap payload_world 0) = None \<and> 1 \<le> Retries client3 \<and>
   sreads (heap (snd (Do client3 flaky (Some background) post_request payload_world)) 0) = 1 \<and>
   map call_body (calls (snd (Do client3 flaky (Some background) post_request payload_world))) =
     [Some (1, NewReader ''payload''), Some (2, NewReader ''payload'')] \<and>
   map fst (waited (snd (Do client3 flaky (Some background) post_request payload_world))) = [1] \<and>
   fst (Do client3 flaky (Some background) post_request payload_world) =
     (Some \<lparr>StatusCode = 200, RespBody = Some 3\<rparr>, None)"
proof -
  define p where "p = ''payload''"
  define rq where "rq = post_request\<lparr>rctx := background\<rparr>"
  define w0 where "w0 = CloseBody 0 (snd (ReadAll 0 payload_world))"
  have b: "Body post_request = Some 0" by (simp add: post_request_def)
  have n: "0 < nxt payload_world" by (simp add: payload_world_def)
  have s: "sreads (heap payload_world 0) = 0" "sdata (heap payload_world 0) = p"
    "serr (heap payload_world 0) = None"
    by (simp_all add: payload_world_def NewReader_def p_def)
  have r3: "1 \<le> Retries client3" by (simp add: client3_eq)
  have d: "Do client3 flaky (Some background) post_request payload_world =
           Do_loop client3 flaky background rq (Some p) 1 None w0"
    using b s by (simp add: Do_unfold rq_def w0_def)
  have w0: "nxt w0 = 1" "tstate w0 = 0" "calls w0 = []" "waited w0 = []"
    by (simp_all add: w0_def payload_world_def)
  \<comment> \<open>first attempt: the exchange fails\<close>
  define rq1 where "rq1 = fst (restoreBody (Some p) rq w0)"
  define w1 where "w1 = snd (restoreBody (Some p) rq w0)"
  define w2 where "w2 = snd (HttpClient_Do flaky rq1 w1)"
  have rb1: "restoreBody (Some p) rq w0 = (rq1, w1)" by (simp add: rq1_def w1_def)
  have w1: "nxt w1 = 2" "tstate w1 = 0" "waited w1 = []"
    by (simp_all add: w1_def restoreBody_Some_proj w0)
  have h1: "HttpClient_Do flaky rq1 w1 = (Inl (Err ''connection refused''), w2)"
    by (simp add: prod_eq_iff w2_def HttpClient_Do_fst flaky_eq w1)
  note a1 = attempt_with_body[OF rb1 w2_def]
  define w4 where "w4 = waitBeforeRetry client3 background 1
      (emit LevelWarn ''request attempt failed''
         [(''attempt'', AInt 1), (''max_retries'', AInt (Retries client3)),
          (''method'', AString (Method rq1)), (''url'', AString (URL rq1)),
          (''error'', AErr (Err ''connection refused''))] w2)"
  have lt: "(1::int) < Retries client3" by (simp add: client3_eq)
  have s1: "Do_loop client3 flaky background rq (Some p) 1 None w0 =
            Do_loop client3 flaky background rq1 (Some p) 2 (Some (Err ''connection refused'')) w4"
    unfolding w4_def using Do_loop_Inl_retry[OF lt rb1 h1] by simp
  have w4: "nxt w4 = 2" "tstate w4 = 1" "calls w4 = [observe rq1 w1]"
    "map fst (waited w4) = [1]"
    by (simp_all add: w4_def a1 w0)
       (simp_all add: w2_def HttpClient_Do_state HttpClient_Do_proj flaky_eq w1 wait_waited)
  \<comment> \<open>second attempt: status 200\<close>
  define rq2 where "rq2 = fst (restoreBody (Some p) rq1 w4)"
  define w5 where "w5 = snd (restoreBody (Some p) rq1 w4)"
  define w6 where "w6 = snd (HttpClient_Do flaky rq2 w5)"
  have rb2: "restoreBody (Some p) rq1 w4 = (rq2, w5)" by (simp add: rq2_def w5_def)
  have w5: "nxt w5 = 3" "tstate w5 = 1" "map fst (waited w5) = [1]"
    by (simp_all add: w5_def restoreBody_Some_proj w4)
  have h2: "HttpClient_Do flaky rq2 w5 = (Inr \<lparr>StatusCode = 200, RespBody = Some 3\<rparr>, w6)"
    by (simp add: prod_eq_iff w6_def HttpClient_Do_fst flaky_eq w5)
  note a2 = attempt_with_body[OF rb2 w6_def]
  have le2: "(2::int) \<le> Retries client3" by (simp add: client3_eq)
  have s2: "Do_loop client3 flaky background rq1 (Some p) 2 (Some (Err ''connection refused'')) w4 =
            ((Some \<lparr>StatusCode = 200, RespBody = Some 3\<rparr>, None), w6)"
    using Do_loop_Inr_final[OF le2 rb2 h2] by (simp add: shouldRetry_def)
  have run: "Do client3 flaky (Some background) post_request payload_world =
             ((Some \<lparr>StatusCode = 200, RespBody = Some 3\<rparr>, None), w6)"
    by (simp add: d s1 s2)
  have c6: "map call_body (calls w6) = [Some (1, NewReader p), Some (2, NewReader p)]"
    by (simp add: a2 w4 a1 w0)
  have wt6: "map fst (waited w6) = [1]"
    by (simp add: w6_def HttpClient_Do_proj w5)
  from body_replayed_on_every_attempt[where req = post_request and ?r0.0 = 0
      and w = payload_world and c = client3 and tr = flaky and cxo = "Some background"] b n
  have "sreads (heap (snd (Do client3 flaky (Some background) post_request payload_world)) 0) =
          Suc (sreads (heap payload_world 0))"
    by blast
  then show ?thesis using b n s r3 c6 wt6 by (simp add: run p_def)
qed

section \<open>The logging round tripper\<close>

lemma readBody_ok:
  assumes "0 \<le> limit" and "serr (heap w r) = None"
  shows "readBody r limit w =
     Some ((Some (if int (length (sdata (heap w r))) > limit
                  then take (nat limit) (sdata (heap w r)) else sdata (heap w r)),
            nxt w, None),
           snd (alloc (NewReader (sdata (heap w r))) (CloseBody r (snd (ReadAll r w)))))"
  using assms by (simp add: readBody_def ReadAll_def CloseBody_def alloc_def Let_def)

lemma readBody_failed:
  assumes "serr (heap w r) = Some e"
  shows "readBody r limit w =
     Some ((None, nxt w, Some e), snd (alloc (NewReader []) (CloseBody r (snd (ReadAll r w)))))"
  using assms by (simp add: readBody_def ReadAll_def CloseBody_def alloc_def Let_def)

lemma alloc_proj [simp]:
  "heap (snd (alloc s w)) = (heap w)(nxt w := s)" "nxt (snd (alloc s w)) = Suc (nxt w)"
  "now (snd (alloc s w)) = now w" "logs (snd (alloc s w)) = logs w"
  "calls (snd (alloc s w)) = calls w" "results (snd (alloc s w)) = results w"
  "waited (snd (alloc s w)) = waited w" "tstate (snd (alloc s w)) = tstate w"
  by (simp_all add: alloc_def)

text \<open>
  Claim C7, for a limit that is not negative: with body capture enabled and
  \<open>maxBodySize \<ge> 0\<close>, a body of \<open>S\<close> bytes that reads without error is logged as its
  first \<open>maxBodySize\<close> bytes when \<open>S > maxBodySize\<close> and whole otherwise, while the stream
  attached in its place for the next consumer is a new unread stream over all \<open>S\<close>
  bytes; for the response body (\<^verbatim>\<open>logResponse\<close>) and for the request body
  (\<^verbatim>\<open>logRequest\<close>).
\<close>

theorem logged_body_truncated_stream_complete:
  "0 \<le> maxBodySize l \<and> logBodies l \<and> serr (heap w r) = None \<and> dat = sdata (heap w r) \<and>
   logged = (if int (length dat) > maxBodySize l then take (nat (maxBodySize l)) dat else dat)
   \<longrightarrow>
     (RespBody resp = Some r \<longrightarrow>
        (\<exists>w'. logResponse l req resp d w = Some (resp\<lparr>RespBody := Some (nxt w)\<rparr>, w') \<and>
           heap w' (nxt w) = NewReader dat \<and>
           logs w' = logs w @
             [\<lparr>lvl = LevelDebug, msg = ''http response body'',
               attrs = [(''body'', AString logged)]\<rparr>,
              \<lparr>lvl = LevelInfo, msg = ''http request completed'',
               attrs = [(''method'', AString (Method req)), (''url'', AString (URL req)),
                        (''status'', AInt (StatusCode resp)), (''duration'', ADuration d)]\<rparr>])) \<and>
     (Body req = Some r \<longrightarrow>
        (\<exists>w'. logRequest l req w = Some (req\<lparr>Body := Some (nxt w)\<rparr>, w') \<and>
           heap w' (nxt w) = NewReader dat \<and>
           logs w' = logs w @
             [\<lparr>lvl = LevelDebug, msg = ''http request body'',
               attrs = [(''body'', AString logged)]\<rparr>])) \<and>
     (int (length dat) > maxBodySize l \<longrightarrow> logged = take (nat (maxBodySize l)) dat \<and>
        length logged = nat (maxBodySize l)) \<and>
     (int (length dat) \<le> maxBodySize l \<longrightarrow> logged = dat)"
  by (auto simp: logResponse_def logRequest_def readBody_ok string_of_def)

lemma body_logger_eq: "body_logger = \<lparr>logBodies = True, maxBodySize = 100\<rparr>"
  by (simp add: body_logger_def NewLoggingRoundTripper_def WithBodyLogging_def
      WithMaxBodySize_def)

theorem logged_body_truncated_stream_complete_witness:
  "0 \<le> maxBodySize body_logger \<and> logBodies body_logger \<and>
   serr (heap largeBody_world 0) = None \<and> RespBody ok_response = Some 0 \<and>
   Body post_request = Some 0 \<and>
   (\<exists>w'. logResponse body_logger post_request ok_response 0 largeBody_world =
            Some (\<lparr>StatusCode = 200, RespBody = Some 1\<rparr>, w') \<and>
      heap w' 1 = NewReader (replicate 1000 CHR ''a'') \<and>
      logs w' =
        [\<lparr>lvl = LevelDebug, msg = ''http response body'',
          attrs = [(''body'', AString (replicate 100 CHR ''a''))]\<rparr>,
         \<lparr>lvl = LevelInfo, msg = ''http request completed'',
          attrs = [(''method'', AString ''POST''), (''url'', AString ''http://example.com/api''),
                   (''status'', AInt 200), (''duration'', ADuration 0)]\<rparr>]) \<and>
   (\<exists>w'. logRequest body_logger post_request largeBody_world =
            Some (post_request\<lparr>Body := Some 1\<rparr>, w') \<and>
      heap w' 1 = NewReader (replicate 1000 CHR ''a'') \<and>
      logs w' =
        [\<lparr>lvl = LevelDebug, msg = ''http request body'',
          attrs = [(''body'', AString (replicate 100 CHR ''a''))]\<rparr>])"
  using logged_body_truncated_stream_complete[where l = body_logger and w = largeBody_world
      and r = 0 and dat = "replicate 1000 CHR ''a''" and logged = "replicate 100 CHR ''a''"
      and resp = ok_response and req = post_request and d = 0]
  by (simp add: body_logger_eq largeBody_world_def ok_response_def post_request_def
      NewReader_def)

lemma negative_logger_eq: "negative_logger = \<lparr>logBodies = True, maxBodySize = - 1\<rparr>"
  by (simp add: negative_logger_def NewLoggingRoundTripper_def WithBodyLogging_def
      WithMaxBodySize_def)

lemma readBody_negative:
  assumes "limit < 0" and "serr (heap w r) = None"
  shows "readBody r limit w = None"
  using assms by (simp add: readBody_def ReadAll_def Let_def)

text \<open>
  Claim C7 as stated, for every limit, does not hold: \<^verbatim>\<open>WithMaxBodySize\<close> accepts a
  negative limit, every body is then longer than the limit, and the slice expression
  \<^verbatim>\<open>data[:limit]\<close> of \<^verbatim>\<open>readBody\<close> panics, so that nothing is logged and no stream is
  attached. With the limit \<open>-1\<close> and a body of 1000 bytes:
\<close>

theorem logged_body_negative_limit_counterexample:
  "logBodies negative_logger \<and> serr (heap largeBody_world 0) = None \<and>
   int (length (sdata (heap largeBody_world 0))) > maxBodySize negative_logger \<and>
   RespBody ok_response = Some 0 \<and> Body post_request = Some 0 \<and>
   logResponse negative_logger post_request ok_response 0 largeBody_world = None \<and>
   logRequest negative_logger post_request largeBody_world = None"
proof -
  have s: "serr (heap largeBody_world 0) = None"
    by (simp add: largeBody_world_def NewReader_def)
  have "readBody 0 (- 1) largeBody_world = None"
    by (rule readBody_negative[OF _ s]) simp
  then show ?thesis
    using s by (simp add: logResponse_def logRequest_def negative_logger_eq ok_response_def
        post_request_def largeBody_world_def NewReader_def)
qed

lemma logRequest_failed:
  assumes "logBodies l" and "Body req = Some r" and "serr (heap w r) = Some e"
  shows "logRequest l req w =
     Some (req\<lparr>Body := Some (nxt w)\<rparr>,
           emit LevelWarn ''failed to read request body'' [(''error'', AErr e)]
             (snd (alloc (NewReader []) (CloseBody r (snd (ReadAll r w))))))"
  using assms by (simp add: logRequest_def readBody_failed)

lemma logResponse_total:
  assumes "0 \<le> maxBodySize l"
  shows "\<exists>resp' w'. logResponse l req resp d w = Some (resp', w') \<and>
           StatusCode resp' = StatusCode resp \<and> calls w' = calls w \<and> results w' = results w"
proof (cases "RespBody resp")
  case None
  then show ?thesis by (simp add: logResponse_def)
next
  case (Some r)
  show ?thesis
  proof (cases "logBodies l")
    case False
    then show ?thesis using Some by (simp add: logResponse_def)
  next
    case True
    show ?thesis
    proof (cases "serr (heap w r)")
      case None
      then show ?thesis using Some True assms by (simp add: logResponse_def readBody_ok)
    next
      case (Some e)
      then show ?thesis using \<open>RespBody resp = Some r\<close> True
        by (simp add: logResponse_def readBody_failed)
    qed
  qed
qed

lemma next_RoundTrip_proj:
  "calls (snd (next_RoundTrip tr req w)) = calls w @ [observe req w]"
  "results (snd (next_RoundTrip tr req w)) = results w @ [fst (next_RoundTrip tr req w)]"
  by (simp_all add: next_RoundTrip_def invoke_proj)

section \<open>A request body that cannot be read\<close>

text \<open>
  Claim C9, with the response side restricted to a limit that is not negative: with body
  capture enabled, when reading the request body fails, a warning with the error is
  logged and a new stream that is unread, open and yields no bytes and no error is
  attached to the request in place of the body; \<^verbatim>\<open>RoundTrip\<close> then is what the wrapped
  round tripper, invoked with that request, gives: its error unchanged (whatever the
  limit), or its response after \<^verbatim>\<open>logResponse\<close>. When \<open>maxBodySize \<ge> 0\<close> that result is
  always propagated: one invocation, and \<^verbatim>\<open>RoundTrip\<close> returns the error or a response
  with the same status.
\<close>

theorem request_body_read_failure_is_not_fatal:
  "logBodies l \<and> Body req = Some r \<and> serr (heap w r) = Some e \<longrightarrow>
     (\<exists>w1. logRequest l req w = Some (req\<lparr>Body := Some (nxt w)\<rparr>, w1) \<and>
        heap w1 (nxt w) = NewReader [] \<and>
        logs w1 = logs w @ [\<lparr>lvl = LevelWarn, msg = ''failed to read request body'',
                             attrs = [(''error'', AErr e)]\<rparr>] \<and>
        calls w1 = calls w \<and>
        call_body (observe (req\<lparr>Body := Some (nxt w)\<rparr>) w1) = Some (nxt w, NewReader []) \<and>
        RoundTrip l tr req w =
          (case next_RoundTrip tr (req\<lparr>Body := Some (nxt w)\<rparr>) w1 of
             (Inl err, w2) \<Rightarrow>
               Some ((None, Some err),
                     logRequestError l (req\<lparr>Body := Some (nxt w)\<rparr>) (now w2 - now w) err w2)
           | (Inr resp, w2) \<Rightarrow>
               (case logResponse l (req\<lparr>Body := Some (nxt w)\<rparr>) resp (now w2 - now w) w2 of
                  None \<Rightarrow> None
                | Some (resp1, w3) \<Rightarrow> Some ((Some resp1, None), w3))) \<and>
        (0 \<le> maxBodySize l \<longrightarrow>
           (\<exists>res w' x. RoundTrip l tr req w = Some (res, w') \<and>
              calls w' = calls w @ [observe (req\<lparr>Body := Some (nxt w)\<rparr>) w1] \<and>
              results w' = results w @ [x] \<and>
              (case x of
                 Inl err \<Rightarrow> res = (None, Some err)
               | Inr resp \<Rightarrow>
                   (\<exists>resp'. res = (Some resp', None) \<and> StatusCode resp' = StatusCode resp)))))"
proof (intro impI, elim conjE)
  assume lb: "logBodies l" and b: "Body req = Some r" and e: "serr (heap w r) = Some e"
  define req1 where "req1 = req\<lparr>Body := Some (nxt w)\<rparr>"
  define w1 where "w1 = emit LevelWarn ''failed to read request body'' [(''error'', AErr e)]
             (snd (alloc (NewReader []) (CloseBody r (snd (ReadAll r w)))))"
  have lr: "logRequest l req w = Some (req1, w1)"
    unfolding req1_def w1_def by (rule logRequest_failed[OF lb b e])
  have h1: "heap w1 (nxt w) = NewReader []"
    and l1: "logs w1 = logs w @ [\<lparr>lvl = LevelWarn, msg = ''failed to read request body'',
                             attrs = [(''error'', AErr e)]\<rparr>]"
    and c1: "calls w1 = calls w" and r1: "results w1 = results w" and n1: "now w1 = now w"
    by (simp_all add: w1_def)
  define x where "x = fst (next_RoundTrip tr req1 w1)"
  define w2 where "w2 = snd (next_RoundTrip tr req1 w1)"
  have nr: "next_RoundTrip tr req1 w1 = (x, w2)" by (simp add: x_def w2_def)
  have c2: "calls w2 = calls w @ [observe req1 w1]"
    and r2: "results w2 = results w @ [x]"
    by (simp_all add: w2_def x_def next_RoundTrip_proj c1 r1)
  have cb: "call_body (observe req1 w1) = Some (nxt w, NewReader [])"
    by (simp add: observe_def req1_def h1)
  have eq: "RoundTrip l tr req w =
          (case next_RoundTrip tr req1 w1 of
             (Inl err, w2) \<Rightarrow>
               Some ((None, Some err), logRequestError l req1 (now w2 - now w) err w2)
           | (Inr resp, w2) \<Rightarrow>
               (case logResponse l req1 resp (now w2 - now w) w2 of
                  None \<Rightarrow> None
                | Some (resp1, w3) \<Rightarrow> Some ((Some resp1, None), w3)))"
    by (simp add: RoundTrip_def lr Let_def split: prod.splits sum.splits)
  have bound: "0 \<le> maxBodySize l \<longrightarrow>
        (\<exists>res w' x. RoundTrip l tr req w = Some (res, w') \<and>
        calls w' = calls w @ [observe req1 w1] \<and> results w' = results w @ [x] \<and>
        (case x of
           Inl err \<Rightarrow> res = (None, Some err)
         | Inr resp \<Rightarrow> (\<exists>resp'. res = (Some resp', None) \<and> StatusCode resp' = StatusCode resp)))"
  proof
    assume lim: "0 \<le> maxBodySize l"
    show "\<exists>res w' x. RoundTrip l tr req w = Some (res, w') \<and>
        calls w' = calls w @ [observe req1 w1] \<and> results w' = results w @ [x] \<and>
        (case x of
           Inl err \<Rightarrow> res = (None, Some err)
         | Inr resp \<Rightarrow> (\<exists>resp'. res = (Some resp', None) \<and> StatusCode resp' = StatusCode resp))"
    proof (cases x)
      case (Inl err)
      have "RoundTrip l tr req w =
              Some ((None, Some err), logRequestError l req1 (now w2 - now w) err w2)"
        by (simp add: eq nr Inl)
      moreover have "calls (logRequestError l req1 (now w2 - now w) err w2) =
                       calls w @ [observe req1 w1]"
        and "results (logRequestError l req1 (now w2 - now w) err w2) = results w @ [x]"
        by (simp_all add: logRequestError_def c2 r2)
      ultimately show ?thesis using Inl by auto
    next
      case (Inr resp)
      obtain resp' w3 where lg: "logResponse l req1 resp (now w2 - now w) w2 = Some (resp', w3)"
        and st: "StatusCode resp' = StatusCode resp" and c3: "calls w3 = calls w2"
        and r3: "results w3 = results w2"
        using logResponse_total[OF lim] by blast
      have "RoundTrip l tr req w = Some ((Some resp', None), w3)"
        by (simp add: eq nr Inr lg)
      then show ?thesis using Inr st c3 r3 c2 r2 by auto
    qed
  qed
  show "\<exists>w1. logRequest l req w = Some (req\<lparr>Body := Some (nxt w)\<rparr>, w1) \<and>
        heap w1 (nxt w) = NewReader [] \<and>
        logs w1 = logs w @ [\<lparr>lvl = LevelWarn, msg = ''failed to read request body'',
                             attrs = [(''error'', AErr e)]\<rparr>] \<and>
        calls w1 = calls w \<and>
        call_body (observe (req\<lparr>Body := Some (nxt w)\<rparr>) w1) = Some (nxt w, NewReader []) \<and>
        RoundTrip l tr req w =
          (case next_RoundTrip tr (req\<lparr>Body := Some (nxt w)\<rparr>) w1 of
             (Inl err, w2) \<Rightarrow>
               Some ((None, Some err),
                     logRequestError l (req\<lparr>Body := Some (nxt w)\<rparr>) (now w2 - now w) err w2)
           | (Inr resp, w2) \<Rightarrow>
               (case logResponse l (req\<lparr>Body := Some (nxt w)\<rparr>) resp (now w2 - now w) w2 of
                  None \<Rightarrow> None
                | Some (resp1, w3) \<Rightarrow> Some ((Some resp1, None), w3))) \<and>
        (0 \<le> maxBodySize l \<longrightarrow>
           (\<exists>res w' x. RoundTrip l tr req w = Some (res, w') \<and>
              calls w' = calls w @ [observe (req\<lparr>Body := Some (nxt w)\<rparr>) w1] \<and>
              results w' = results w @ [x] \<and>
              (case x of
                 Inl err \<Rightarrow> res = (None, Some err)
               | Inr resp \<Rightarrow>
                   (\<exists>resp'. res = (Some resp', None) \<and> StatusCode resp' = StatusCode resp))))"
    using lr h1 l1 c1 cb eq bound unfolding req1_def by blast
qed


lemma RoundTrip_failed_read:
  assumes "logBodies l" and "Body req = Some r" and "serr (heap w r) = Some e"
  shows "RoundTrip l tr req w =
          (case next_RoundTrip tr (req\<lparr>Body := Some (nxt w)\<rparr>)
                  (emit LevelWarn ''failed to read request body'' [(''error'', AErr e)]
                     (snd (alloc (NewReader []) (CloseBody r (snd (ReadAll r w)))))) of
             (Inl err, w2) \<Rightarrow>
               Some ((None, Some err),
                     logRequestError l (req\<lparr>Body := Some (nxt w)\<rparr>) (now w2 - now w) err w2)
           | (Inr resp, w2) \<Rightarrow>
               (case logResponse l (req\<lparr>Body := Some (nxt w)\<rparr>) resp (now w2 - now w) w2 of
                  None \<Rightarrow> None
                | Some (resp1, w3) \<Rightarrow> Some ((Some resp1, None), w3)))"
  by (simp add: RoundTrip_def logRequest_failed[OF assms] Let_def split: prod.splits sum.splits)

lemma next_RoundTrip_reply:
  assumes "fst (tr (tstate w) (observe req w)) = Reply sc b"
  shows "fst (next_RoundTrip tr req w) =
           Inr \<lparr>StatusCode = sc, RespBody = (case b of None \<Rightarrow> None | Some s \<Rightarrow> Some (nxt w))\<rparr>"
    and "b = Some s \<Longrightarrow> heap (snd (next_RoundTrip tr req w)) (nxt w) = s"
  using assms
  by (auto simp: next_RoundTrip_def invoke_def Let_def alloc_def
      split: prod.splits reply.splits option.splits)

lemma logResponse_negative:
  assumes "logBodies l" and "maxBodySize l < 0" and "RespBody resp = Some k"
    and "serr (heap w k) = None"
  shows "logResponse l req resp d w = None"
  using assms by (simp add: logResponse_def readBody_negative)

theorem request_body_read_failure_is_not_fatal_witness:
  "logBodies body_logger \<and> Body post_request = Some 0 \<and>
   serr (heap errorReader_world 0) = Some (Err ''read error'') \<and> 0 \<le> maxBodySize body_logger \<and>
   (\<exists>w1. logRequest body_logger post_request errorReader_world =
            Some (post_request\<lparr>Body := Some 1\<rparr>, w1) \<and>
      heap w1 1 = NewReader [] \<and>
      logs w1 = [\<lparr>lvl = LevelWarn, msg = ''failed to read request body'',
                  attrs = [(''error'', AErr (Err ''read error''))]\<rparr>] \<and>
      call_body (observe (post_request\<lparr>Body := Some 1\<rparr>) w1) = Some (1, NewReader []) \<and>
      (\<exists>res w' x. RoundTrip body_logger plain_next post_request errorReader_world =
                    Some (res, w') \<and>
         calls w' = [observe (post_request\<lparr>Body := Some 1\<rparr>) w1] \<and> results w' = [x] \<and>
         (case x of
            Inl err \<Rightarrow> res = (None, Some err)
          | Inr resp \<Rightarrow>
              (\<exists>resp'. res = (Some resp', None) \<and> StatusCode resp' = StatusCode resp))))"
proof -
  have h: "logBodies body_logger" "Body post_request = Some 0"
    "serr (heap errorReader_world 0) = Some (Err ''read error'')" "0 \<le> maxBodySize body_logger"
    and n: "nxt errorReader_world = 1" "logs errorReader_world = []"
      "calls errorReader_world = []" "results errorReader_world = []"
    by (simp_all add: body_logger_eq errorReader_world_def post_request_def)
  from request_body_read_failure_is_not_fatal[where l = body_logger and req = post_request
      and r = 0 and w = errorReader_world and e = "Err ''read error''" and tr = plain_next] h
  show ?thesis unfolding n append_Nil by blast
qed

text \<open>
  Claim C9 as stated, for every limit, does not hold: with the limit \<open>-1\<close>, a request
  body that fails to read and a wrapped round tripper whose response has a body, the
  request is forwarded but \<^verbatim>\<open>logResponse\<close> panics in \<^verbatim>\<open>readBody\<close>, and \<^verbatim>\<open>RoundTrip\<close>
  returns nothing.
\<close>

theorem request_body_read_failure_negative_limit_counterexample:
  "logBodies negative_logger \<and> Body post_request = Some 0 \<and>
   serr (heap errorReader_world 0) = Some (Err ''read error'') \<and>
   RoundTrip negative_logger body_next post_request errorReader_world = None"
proof -
  have h: "logBodies negative_logger" "Body post_request = Some 0"
    "serr (heap errorReader_world 0) = Some (Err ''read error'')"
    and lim: "maxBodySize negative_logger < 0"
    by (simp_all add: negative_logger_eq errorReader_world_def post_request_def)
  define req1 where "req1 = post_request\<lparr>Body := Some (nxt errorReader_world)\<rparr>"
  define w1 where "w1 = emit LevelWarn ''failed to read request body''
      [(''error'', AErr (Err ''read error''))]
      (snd (alloc (NewReader []) (CloseBody 0 (snd (ReadAll 0 errorReader_world)))))"
  define w2 where "w2 = snd (next_RoundTrip body_next req1 w1)"
  have t: "fst (body_next (tstate w1) (observe req1 w1)) = Reply 200 (Some (NewReader ''abc''))"
    by (simp add: body_next_def always_def)
  have f: "fst (next_RoundTrip body_next req1 w1) =
             Inr \<lparr>StatusCode = 200, RespBody = Some (nxt w1)\<rparr>"
    using next_RoundTrip_reply(1)[where tr = body_next and w = w1 and req = req1, OF t]
    by simp
  have hp: "heap w2 (nxt w1) = NewReader ''abc''"
    unfolding w2_def
    by (rule next_RoundTrip_reply(2)[where tr = body_next and w = w1 and req = req1, OF t refl])
  have nr: "next_RoundTrip body_next req1 w1 =
              (Inr \<lparr>StatusCode = 200, RespBody = Some (nxt w1)\<rparr>, w2)"
    using f by (simp add: prod_eq_iff w2_def)
  have lg: "logResponse negative_logger req1 \<lparr>StatusCode = 200, RespBody = Some (nxt w1)\<rparr>
              (now w2 - now errorReader_world) w2 = None"
    by (rule logResponse_negative[OF h(1) lim, where k = "nxt w1"])
       (simp_all add: hp NewReader_def)
  have "RoundTrip negative_logger body_next post_request errorReader_world = None"
    using RoundTrip_failed_read[OF h, of body_next] nr lg
    unfolding req1_def[symmetric] w1_def[symmetric] by simp
  then show ?thesis using h by simp
qed

end
